theory Spec2Isabelle
  imports Main "HOL-Library.Sublist"
begin

section \<open>Values and strings\<close>

text \<open>
  The data that flows through the runtime is JSON-like: the \<^verbatim>\<open>unknown\<close> values that a
  provider returns and that the validator inspects. An object is a plain object, given
  by the list of its own properties in enumeration order; its prototype is
  \<^verbatim>\<open>Object.prototype\<close>, whose members \<^verbatim>\<open>key in obj\<close> and \<^verbatim>\<open>obj[key]\<close> find too. Reading
  such a member gives a function (\<open>JFunction\<close>), except \<^verbatim>\<open>__proto__\<close>, which gives the
  prototype itself (\<open>JObjectPrototype\<close>). Symbols and bigints are outside the data
  model. Strings are byte lists; the three non-ASCII characters of the log messages are
  written as their UTF-8 bytes.
\<close>

datatype json =
    JUndefined
  | JNull
  | JBool bool
  | JNum int
  | JStr string
  | JArr "json list"
  | JObj "(string \<times> json) list"
  | JFunction
  | JObjectPrototype

fun typeof :: "json \<Rightarrow> string" where
  "typeof JUndefined = ''undefined''"
| "typeof JNull = ''object''"
| "typeof (JBool b) = ''boolean''"
| "typeof (JNum n) = ''number''"
| "typeof (JStr s) = ''string''"
| "typeof (JArr xs) = ''object''"
| "typeof (JObj kvs) = ''object''"
| "typeof JFunction = ''function''"
| "typeof JObjectPrototype = ''object''"

definition digit :: "nat \<Rightarrow> char" where
  "digit n = char_of (48 + n)"

text \<open>Decimal rendering of a number inside a template string.\<close>

fun showNat :: "nat \<Rightarrow> string" where
  "showNat n = (if n < 10 then [digit n] else showNat (n div 10) @ [digit (n mod 10)])"

declare showNat.simps [simp del]

text \<open>\<^verbatim>\<open>Array.prototype.join\<close> on strings.\<close>

fun join :: "string \<Rightarrow> string list \<Rightarrow> string" where
  "join sep [] = []"
| "join sep [x] = x"
| "join sep (x # y # ys) = x @ sep @ join sep (y # ys)"

text \<open>\<^verbatim>\<open>Array.prototype.includes\<close>.\<close>

definition array_includes :: "'a list \<Rightarrow> 'a \<Rightarrow> bool" where
  "array_includes xs x = (x \<in> set xs)"

text \<open>
  The names of the members of \<^verbatim>\<open>Object.prototype\<close> (ECMAScript, Annex B included). Every
  plain object, a value as well as the tables \<^verbatim>\<open>providers\<close>, \<^verbatim>\<open>OUTPUT_SCHEMAS\<close> and
  \<^verbatim>\<open>s.properties\<close>, inherits them.
\<close>

definition objectPrototypeKeys :: "string list" where
  "objectPrototypeKeys =
     [''constructor'', ''__defineGetter__'', ''__defineSetter__'', ''hasOwnProperty'',
      ''__lookupGetter__'', ''__lookupSetter__'', ''isPrototypeOf'', ''propertyIsEnumerable'',
      ''toString'', ''valueOf'', ''__proto__'', ''toLocaleString'']"

text \<open>
  \<^verbatim>\<open>table[key]\<close> on a plain object with the given own entries: the own entry, else the
  inherited member of that name, else \<^verbatim>\<open>undefined\<close>. Only the last is falsy.
\<close>

datatype 'a member = Own 'a | Inherited string | Absent

definition lookup :: "(string \<times> 'a) list \<Rightarrow> string \<Rightarrow> 'a member" where
  "lookup entries key =
     (case map_of entries key of
        Some x \<Rightarrow> Own x
      | None \<Rightarrow> if key \<in> set objectPrototypeKeys then Inherited key else Absent)"

text \<open>\<^verbatim>\<open>key in table\<close> on a plain object with the given own entries.\<close>

definition key_in :: "string \<Rightarrow> (string \<times> 'a) list \<Rightarrow> bool" where
  "key_in key entries = (key \<in> set (map fst entries) \<or> key \<in> set objectPrototypeKeys)"

text \<open>
  The own enumerable properties of a value that passes the test for a non-null,
  non-array object (\<^verbatim>\<open>Object.keys\<close> lists their names): the members of
  \<^verbatim>\<open>Object.prototype\<close> are not enumerable.
\<close>

fun ownProperties :: "json \<Rightarrow> (string \<times> json) list option" where
  "ownProperties (JObj kvs) = Some kvs"
| "ownProperties JObjectPrototype = Some []"
| "ownProperties _ = None"

text \<open>
  \<^verbatim>\<open>obj[key]\<close> for a key with \<^verbatim>\<open>key in obj\<close>, and \<open>None\<close> when \<^verbatim>\<open>key in obj\<close> is false. The
  prototype of \<^verbatim>\<open>Object.prototype\<close> is \<^verbatim>\<open>null\<close>.
\<close>

fun getProperty :: "json \<Rightarrow> string \<Rightarrow> json option" where
  "getProperty (JObj kvs) key =
     (case map_of kvs key of
        Some x \<Rightarrow> Some x
      | None \<Rightarrow>
          if key = ''__proto__'' then Some JObjectPrototype
          else if key \<in> set objectPrototypeKeys then Some JFunction
          else None)"
| "getProperty JObjectPrototype key =
     (if key = ''__proto__'' then Some JNull
      else if key \<in> set objectPrototypeKeys then Some JFunction
      else None)"
| "getProperty _ key = None"

definition dquote :: string where
  "dquote = [CHR 0x22]"

definition apostrophe :: string where
  "apostrophe = [CHR 0x27]"

definition emdash :: string where
  "emdash = [CHR 0xE2, CHR 0x80, CHR 0x94]"

definition check_mark :: string where
  "check_mark = [CHR 0xE2, CHR 0x9C, CHR 0x93]"

definition cross_mark :: string where
  "cross_mark = [CHR 0xE2, CHR 0x9C, CHR 0x97]"

section \<open>Core types (types.ts)\<close>

text \<open>
  A schema node. The arguments of the constructor are, in this order: type, properties,
  items, required, enum, description, additionalProperties. An optional field that is
  absent is \<open>None\<close>; a present object or array is truthy in JavaScript even when empty,
  so \<^verbatim>\<open>if (s.required)\<close> is the test for \<open>Some\<close>.
\<close>

datatype JSONSchema = JSONSchema
  (schema_type: string)
  (properties: "(string \<times> JSONSchema) list option")
  (items: "JSONSchema option")
  (required: "string list option")
  (schema_enum: "string list option")
  (description: "string option")
  (additionalProperties: "bool option")

type_synonym Permission = string

type_synonym ModelId = string

record ToolDefinition =
  name :: string
  tool_description :: string
  parameters :: JSONSchema
  requiredPermissions :: "Permission list"

datatype Status = pending | approved | rejected | executed

record ToolCall =
  toolName :: string
  arguments :: json
  call_result :: "json option"
  status :: Status

text \<open>
  Tool calls are JavaScript objects that the orchestrator mutates in place and that are
  shared between \<^verbatim>\<open>result.toolCalls\<close>, \<^verbatim>\<open>approvedCalls\<close>, \<^verbatim>\<open>blockedCalls\<close> and the
  \<^verbatim>\<open>data\<close> of log entries. The model keeps them in a store and passes references.
\<close>

type_synonym addr = nat

record StructuredResult =
  success :: bool
  data :: json
  toolCalls :: "addr list"
  reasoning :: "string option"
  rawOutput :: "string option"

record AgentConfig =
  agent_name :: string
  agent_model :: ModelId
  instructions :: string
  allowedTools :: "string list"
  outputSchema :: string
  permissions :: "Permission list"

record AgentRunRequest =
  agent :: string
  model :: "ModelId option"
  input :: string

datatype Phase = discussion | execution

datatype LogType = plan | tool_call | validation | exec_entry | error_entry | blocked

record ValidationResult =
  valid :: bool
  errors :: "string list"

datatype LogData = CallData addr | ValidationData ValidationResult

text \<open>
  A log entry. The \<^verbatim>\<open>timestamp\<close> field is read from the wall clock and is left out;
  \<open>log_type\<close> is the entry's \<^verbatim>\<open>type\<close>, with \<open>exec_entry\<close> for \<^verbatim>\<open>"execution"\<close> and
  \<open>error_entry\<close> for \<^verbatim>\<open>"error"\<close>.
\<close>

record LogEntry =
  log_id :: string
  log_phase :: Phase
  log_model :: ModelId
  log_agent :: string
  log_type :: LogType
  message :: string
  log_data :: "LogData option"

text \<open>
  The state that outlives a call: the module-level counter of log ids and the store of
  tool-call objects.
\<close>

record World =
  logIdCounter :: nat
  heap :: "addr \<Rightarrow> ToolCall"

text \<open>A thrown error, with its message.\<close>

datatype Error = Error string | TypeError string

record GenerateOptions =
  systemPrompt :: string
  userPrompt :: string
  tools :: "ToolDefinition list"
  opt_outputSchema :: "JSONSchema member"

text \<open>
  A provider. Its \<^verbatim>\<open>generateStructuredOutput\<close> is an external, asynchronous capability:
  it may fail (the promise rejects), it allocates the proposed calls, and other runs may
  be scheduled while it is awaited, so it maps the world to a new world.
\<close>

record LLMProvider =
  modelId :: ModelId
  displayName :: string
  vendor :: string
  generateStructuredOutput :: "GenerateOptions \<Rightarrow> World \<Rightarrow> (Error + StructuredResult) \<times> World"

record AgentRunResult =
  phase :: Phase
  result :: StructuredResult
  logs :: "LogEntry list"
  validationPassed :: bool
  blockedCalls :: "addr list"
  approvedCalls :: "addr list"

section \<open>Schema validator (schema-validator.ts)\<close>

text \<open>
  The inner \<^verbatim>\<open>validate\<close> pushes onto the \<^verbatim>\<open>errors\<close> array of the enclosing call; here it
  returns the errors it pushes, in order.
\<close>

fun validate :: "json \<Rightarrow> JSONSchema \<Rightarrow> string \<Rightarrow> string list" where
  "validate v (JSONSchema ty props its req en desc addl) path =
    (if ty = ''object'' then
       (case ownProperties v of
          None \<Rightarrow> [path @ '': expected object, got '' @ typeof v]
        | Some obj \<Rightarrow>
            (case req of
               None \<Rightarrow> []
             | Some keys \<Rightarrow>
                 concat (map (\<lambda>key. if getProperty v key = None
                                     then [path @ ''.'' @ key @ '': required field missing'']
                                     else []) keys))
            @ (case props of
                 None \<Rightarrow> []
               | Some ps \<Rightarrow>
                   concat (map (\<lambda>(key, propSchema).
                                  (case getProperty v key of
                                     Some x \<Rightarrow> validate x propSchema (path @ ''.'' @ key)
                                   | None \<Rightarrow> [])) ps))
            @ (if addl = Some False then
                 (case props of
                    None \<Rightarrow> []
                  | Some ps \<Rightarrow>
                      concat (map (\<lambda>key. if \<not> key_in key ps
                                          then [path @ ''.'' @ key @ '': unexpected property'']
                                          else []) (map fst obj)))
               else []))
     else if ty = ''array'' then
       (case v of
          JArr xs \<Rightarrow>
            (case its of
               None \<Rightarrow> []
             | Some it \<Rightarrow>
                 concat (map (\<lambda>(i, item). validate item it (path @ ''['' @ showNat i @ '']''))
                             (enumerate 0 xs)))
        | _ \<Rightarrow> [path @ '': expected array, got '' @ typeof v])
     else if ty = ''string'' then
       (case v of
          JStr str \<Rightarrow>
            (case en of
               None \<Rightarrow> []
             | Some e \<Rightarrow>
                 if \<not> array_includes e str
                 then [path @ '': must be one of ['' @ join '', '' e @ '']'']
                 else [])
        | _ \<Rightarrow> [path @ '': expected string, got '' @ typeof v])
     else if ty = ''number'' then
       (case v of
          JNum n \<Rightarrow> []
        | _ \<Rightarrow> [path @ '': expected number, got '' @ typeof v])
     else if ty = ''boolean'' then
       (case v of
          JBool b \<Rightarrow> []
        | _ \<Rightarrow> [path @ '': expected boolean, got '' @ typeof v])
     else [])"

definition validateAgainstSchema :: "json \<Rightarrow> JSONSchema \<Rightarrow> ValidationResult" where
  "validateAgainstSchema d schema =
     (let errs = validate d schema ''$''
      in \<lparr>valid = (length errs = 0), errors = errs\<rparr>)"

text \<open>
  \<open>validateAgainstSchema\<close> as the runtime calls it, on what a read of the schema table
  gave. A member inherited from \<^verbatim>\<open>Object.prototype\<close> has no \<^verbatim>\<open>type\<close> property, so no
  branch of \<^verbatim>\<open>validate\<close> is taken and no error is pushed.
\<close>

fun validateAgainstFound :: "json \<Rightarrow> JSONSchema member \<Rightarrow> ValidationResult" where
  "validateAgainstFound d (Own schema) = validateAgainstSchema d schema"
| "validateAgainstFound d _ = \<lparr>valid = True, errors = []\<rparr>"

section \<open>Tool registry and permission validator (tools.ts)\<close>

definition TOOL_REGISTRY :: "ToolDefinition list" where
  "TOOL_REGISTRY =
    [\<lparr>name = ''readTask'',
      tool_description =
        ''Read a task by ID. Returns task details including status, assignee, and due date.'',
      parameters =
        JSONSchema ''object''
          (Some [(''taskId'', JSONSchema ''string'' None None None None
                               (Some ''The ID of the task to read'') None)])
          None (Some [''taskId'']) None None None,
      requiredPermissions = [''read:tasks'']\<rparr>,
     \<lparr>name = ''updateTask'',
      tool_description =
        ''Update a task'' @ apostrophe @ ''s properties such as status, priority, or assignee.'',
      parameters =
        JSONSchema ''object''
          (Some [(''taskId'', JSONSchema ''string'' None None None None
                               (Some ''The ID of the task to update'') None),
                 (''updates'',
                  JSONSchema ''object''
                    (Some [(''status'', JSONSchema ''string'' None None None
                                          (Some [''open'', ''in-progress'', ''urgent'', ''done''])
                                          None None),
                           (''priority'', JSONSchema ''string'' None None None
                                            (Some [''low'', ''medium'', ''high'', ''critical''])
                                            None None),
                           (''assignee'', JSONSchema ''string'' None None None None None None)])
                    None None None None None)])
          None (Some [''taskId'', ''updates'']) None None None,
      requiredPermissions = [''write:tasks'']\<rparr>,
     \<lparr>name = ''createWorkflow'',
      tool_description = ''Create an automation workflow with trigger and steps.'',
      parameters =
        JSONSchema ''object''
          (Some [(''workflow'',
                  JSONSchema ''object''
                    (Some [(''name'', JSONSchema ''string'' None None None None None None),
                           (''trigger'', JSONSchema ''string'' None None None None None None),
                           (''steps'',
                            JSONSchema ''array'' None
                              (Some (JSONSchema ''object''
                                 (Some [(''type'', JSONSchema ''string'' None None None
                                                     (Some [''update'', ''notify'', ''condition''])
                                                     None None),
                                        (''entity'', JSONSchema ''string'' None None None None None None),
                                        (''update'', JSONSchema ''object'' None None None None None None)])
                                 None (Some [''type'']) None None None))
                              None None None None)])
                    None (Some [''name'', ''trigger'', ''steps'']) None None None)])
          None (Some [''workflow'']) None None None,
      requiredPermissions = [''write:workflows'']\<rparr>,
     \<lparr>name = ''listTasks'',
      tool_description = ''List all tasks matching optional filter criteria.'',
      parameters =
        JSONSchema ''object''
          (Some [(''filter'',
                  JSONSchema ''object''
                    (Some [(''status'', JSONSchema ''string'' None None None None None None),
                           (''priority'', JSONSchema ''string'' None None None None None None),
                           (''assignee'', JSONSchema ''string'' None None None None None None)])
                    None None None None None)])
          None None None None None,
      requiredPermissions = [''read:tasks'']\<rparr>]"

definition getPermittedTools :: "string list \<Rightarrow> Permission list \<Rightarrow> ToolDefinition list" where
  "getPermittedTools allowedToolNames agentPermissions =
     filter (\<lambda>tool.
               let nameAllowed = array_includes allowedToolNames (name tool);
                   hasPermissions = list_all (\<lambda>p. array_includes agentPermissions p)
                                             (requiredPermissions tool)
               in nameAllowed \<and> hasPermissions)
            TOOL_REGISTRY"

text \<open>The result is the block message, or \<open>None\<close> for \<^verbatim>\<open>null\<close>.\<close>

definition validateToolAccess :: "string \<Rightarrow> string list \<Rightarrow> Permission list \<Rightarrow> string option" where
  "validateToolAccess tn allowedToolNames agentPermissions =
     (if \<not> array_includes allowedToolNames tn then
        Some (''BLOCKED: Tool '' @ dquote @ tn @ dquote @ '' is not in the agent'' @ apostrophe
              @ ''s allowed tools list. This call has been rejected.'')
      else
        (case find (\<lambda>t. name t = tn) TOOL_REGISTRY of
           None \<Rightarrow>
             Some (''BLOCKED: Tool '' @ dquote @ tn @ dquote @ '' does not exist in the registry.'')
         | Some tool \<Rightarrow>
             let missingPermissions =
                   filter (\<lambda>p. \<not> array_includes agentPermissions p) (requiredPermissions tool)
             in if length missingPermissions > 0 then
                  Some (''BLOCKED: Agent lacks permissions: ['' @ join '', '' missingPermissions
                        @ '']. This call has been rejected.'')
                else None))"

definition OUTPUT_SCHEMAS :: "(string \<times> JSONSchema) list" where
  "OUTPUT_SCHEMAS =
    [(''WorkflowDefinition'',
      JSONSchema ''object''
        (Some [(''workflow'',
                JSONSchema ''object''
                  (Some [(''name'', JSONSchema ''string'' None None None None None None),
                         (''trigger'', JSONSchema ''string'' None None None None None None),
                         (''steps'',
                          JSONSchema ''array'' None
                            (Some (JSONSchema ''object''
                               (Some [(''type'', JSONSchema ''string'' None None None
                                                   (Some [''update'', ''notify'', ''condition''])
                                                   None None),
                                      (''entity'', JSONSchema ''string'' None None None None None None),
                                      (''update'', JSONSchema ''object'' None None None None None None)])
                               None (Some [''type'']) None None None))
                            None None None None)])
                  None (Some [''name'', ''trigger'', ''steps'']) None None None)])
        None (Some [''workflow'']) None None (Some False)),
     (''TaskUpdate'',
      JSONSchema ''object''
        (Some [(''taskId'', JSONSchema ''string'' None None None None None None),
               (''updates'',
                JSONSchema ''object''
                  (Some [(''status'', JSONSchema ''string'' None None None
                                        (Some [''open'', ''in-progress'', ''urgent'', ''done''])
                                        None None),
                         (''priority'', JSONSchema ''string'' None None None
                                          (Some [''low'', ''medium'', ''high'', ''critical''])
                                          None None)])
                  None None None None None)])
        None (Some [''taskId'', ''updates'']) None None (Some False)),
     (''TaskList'',
      JSONSchema ''object''
        (Some [(''tasks'',
                JSONSchema ''array'' None
                  (Some (JSONSchema ''object''
                     (Some [(''id'', JSONSchema ''string'' None None None None None None),
                            (''title'', JSONSchema ''string'' None None None None None None),
                            (''status'', JSONSchema ''string'' None None None None None None),
                            (''priority'', JSONSchema ''string'' None None None None None None)])
                     None (Some [''id'', ''title'', ''status'']) None None None))
                  None None None None)])
        None (Some [''tasks'']) None None (Some False))]"

section \<open>Providers (providers.ts)\<close>

text \<open>
  The table of providers. What each adapter answers is simulated in the source (random
  latency, canned data picked by prompt substrings) and is a parameter here: \<open>gen\<close> gives
  the \<^verbatim>\<open>generateStructuredOutput\<close> of each model id.
\<close>

definition providers_table ::
  "(ModelId \<Rightarrow> GenerateOptions \<Rightarrow> World \<Rightarrow> (Error + StructuredResult) \<times> World)
   \<Rightarrow> (ModelId \<times> LLMProvider) list" where
  "providers_table gen =
    [(''gpt-5.2'',
      \<lparr>modelId = ''gpt-5.2'', displayName = ''OpenAI GPT-5.2'', vendor = ''openai'',
       generateStructuredOutput = gen ''gpt-5.2''\<rparr>),
     (''claude-opus-4.6'',
      \<lparr>modelId = ''claude-opus-4.6'', displayName = ''Claude Opus 4.6'', vendor = ''anthropic'',
       generateStructuredOutput = gen ''claude-opus-4.6''\<rparr>),
     (''gemini-3'',
      \<lparr>modelId = ''gemini-3'', displayName = ''Gemini 3'', vendor = ''google'',
       generateStructuredOutput = gen ''gemini-3''\<rparr>)]"

text \<open>
  \<^verbatim>\<open>providers[modelId]\<close> is a read of a plain object: for the name of a member of
  \<^verbatim>\<open>Object.prototype\<close> it gives that member, which is truthy, and \<open>getProvider\<close> returns
  it.
\<close>

definition getProvider ::
  "(ModelId \<times> LLMProvider) list \<Rightarrow> ModelId \<Rightarrow> Error + LLMProvider member" where
  "getProvider provs m =
     (case lookup provs m of
        Absent \<Rightarrow>
          Inl (Error (''Unknown model: '' @ m @ ''. Supported: '' @ join '', '' (map fst provs)))
      | provider \<Rightarrow> Inr provider)"

section \<open>Agent runtime (agent-runtime.ts)\<close>

definition createLog ::
  "Phase \<Rightarrow> ModelId \<Rightarrow> string \<Rightarrow> LogType \<Rightarrow> string \<Rightarrow> LogData option \<Rightarrow> World
   \<Rightarrow> LogEntry \<times> World" where
  "createLog ph m ag ty msg d w =
     (let n = logIdCounter w + 1
      in (\<lparr>log_id = ''log-'' @ showNat n, log_phase = ph, log_model = m, log_agent = ag,
           log_type = ty, message = msg, log_data = d\<rparr>,
          w\<lparr>logIdCounter := n\<rparr>))"

definition AGENT_CONFIGS :: "AgentConfig list" where
  "AGENT_CONFIGS =
    [\<lparr>agent_name = ''workflow-agent'',
      agent_model = ''claude-opus-4.6'',
      instructions = ''Create and manage automation workflows safely for Onebeam apps. ''
                     @ ''Always produce structured workflow definitions.'',
      allowedTools = [''readTask'', ''createWorkflow'', ''listTasks''],
      outputSchema = ''WorkflowDefinition'',
      permissions = [''read:tasks'', ''write:workflows'', ''read:workflows'']\<rparr>,
     \<lparr>agent_name = ''task-agent'',
      agent_model = ''gpt-5.2'',
      instructions = ''Manage tasks '' @ emdash @ '' read, list, and update tasks. ''
                     @ ''Never create workflows or access unauthorized resources.'',
      allowedTools = [''readTask'', ''updateTask'', ''listTasks''],
      outputSchema = ''TaskUpdate'',
      permissions = [''read:tasks'', ''write:tasks'']\<rparr>,
     \<lparr>agent_name = ''readonly-agent'',
      agent_model = ''gemini-3'',
      instructions = ''Read-only agent that can only list and read tasks. ''
                     @ ''Cannot modify any data.'',
      allowedTools = [''readTask'', ''listTasks''],
      outputSchema = ''TaskList'',
      permissions = [''read:tasks'']\<rparr>]"

text \<open>
  The agent configurations, the output schemas and the provider table are module-level
  constants of the source. The two phases read them through this record, so that their
  properties are stated for every configuration; \<open>shipped\<close> is the configuration of the
  source.
\<close>

record Modules =
  agentConfigs :: "AgentConfig list"
  outputSchemas :: "(string \<times> JSONSchema) list"
  providers :: "(ModelId \<times> LLMProvider) list"

definition shipped ::
  "(ModelId \<Rightarrow> GenerateOptions \<Rightarrow> World \<Rightarrow> (Error + StructuredResult) \<times> World) \<Rightarrow> Modules" where
  "shipped gen =
     \<lparr>agentConfigs = AGENT_CONFIGS, outputSchemas = OUTPUT_SCHEMAS,
      providers = providers_table gen\<rparr>"

text \<open>\<^verbatim>\<open>request.model || config.model\<close>: an absent or empty model falls back.\<close>

definition effectiveModel :: "AgentRunRequest \<Rightarrow> AgentConfig \<Rightarrow> ModelId" where
  "effectiveModel request config =
     (case model request of
        None \<Rightarrow> agent_model config
      | Some m \<Rightarrow> if m = [] then agent_model config else m)"

text \<open>\<^verbatim>\<open>if (blockReason)\<close>: \<^verbatim>\<open>null\<close> and the empty string are falsy.\<close>

definition truthy :: "string option \<Rightarrow> string option" where
  "truthy r = (case r of None \<Rightarrow> None | Some m \<Rightarrow> if m = [] then None else Some m)"

text \<open>
  The loop over \<^verbatim>\<open>result.toolCalls\<close> of the Discussion phase. Its state is the two
  arrays, the log and the world.
\<close>

fun enforceToolBoundaries ::
  "AgentConfig \<Rightarrow> ModelId \<Rightarrow> addr list \<Rightarrow> addr list \<times> addr list \<times> LogEntry list \<times> World
   \<Rightarrow> addr list \<times> addr list \<times> LogEntry list \<times> World" where
  "enforceToolBoundaries config m [] acc = acc"
| "enforceToolBoundaries config m (call # calls) (blocked_calls, approved_calls, lg, w) =
     (case truthy (validateToolAccess (toolName (heap w call)) (allowedTools config)
                     (permissions config)) of
        Some blockReason \<Rightarrow>
          let w1 = w\<lparr>heap := (heap w)(call := (heap w call)\<lparr>status := rejected\<rparr>)\<rparr>;
              (l, w2) = createLog discussion m (agent_name config) blocked blockReason
                          (Some (CallData call)) w1
          in enforceToolBoundaries config m calls
               (blocked_calls @ [call], approved_calls, lg @ [l], w2)
      | None \<Rightarrow>
          let w1 = w\<lparr>heap := (heap w)(call := (heap w call)\<lparr>status := approved\<rparr>)\<rparr>;
              (l, w2) = createLog discussion m (agent_name config) tool_call
                          (''Tool call approved: '' @ toolName (heap w1 call))
                          (Some (CallData call)) w1
          in enforceToolBoundaries config m calls
               (blocked_calls, approved_calls @ [call], lg @ [l], w2))"

text \<open>
  In both phases \<^verbatim>\<open>OUTPUT_SCHEMAS[config.outputSchema]\<close> is a read of a plain object, and
  what it gives is tested for truthiness only. In \<open>runDiscussion\<close> a value that
  \<open>getProvider\<close> returned without being a provider has neither a \<^verbatim>\<open>displayName\<close>, so the
  template string prints \<^verbatim>\<open>undefined\<close>, nor a \<^verbatim>\<open>generateStructuredOutput\<close>, so the call
  throws a \<^verbatim>\<open>TypeError\<close> after the first two log entries.
\<close>

definition runDiscussion ::
  "Modules \<Rightarrow> AgentRunRequest \<Rightarrow> World \<Rightarrow> (Error + AgentRunResult) \<times> World" where
  "runDiscussion env request w =
     (case find (\<lambda>c. agent_name c = agent request) (agentConfigs env) of
        None \<Rightarrow> (Inl (Error (''Unknown agent: '' @ agent request)), w)
      | Some config \<Rightarrow>
          let m = effectiveModel request config
          in (case getProvider (providers env) m of
                Inl e \<Rightarrow> (Inl e, w)
              | Inr provider \<Rightarrow>
                  let (l1, w1) = createLog discussion m (agent_name config) plan
                                   (''Starting discussion phase with ''
                                    @ (case provider of
                                         Own p \<Rightarrow> displayName p
                                       | _ \<Rightarrow> ''undefined''))
                                   None w;
                      permittedTools = getPermittedTools (allowedTools config) (permissions config);
                      (l2, w2) = createLog discussion m (agent_name config) plan
                                   (''Permitted tools: ['' @ join '', '' (map name permittedTools)
                                    @ '']'')
                                   None w1
                  in (case provider of
                        Own p \<Rightarrow>
                          (case generateStructuredOutput p
                                  \<lparr>systemPrompt = instructions config,
                                   userPrompt = input request,
                                   tools = permittedTools,
                                   opt_outputSchema =
                                     (case lookup (outputSchemas env) (outputSchema config) of
                                        Absent \<Rightarrow>
                                          Own (JSONSchema ''object'' None None None None None None)
                                      | found \<Rightarrow> found)\<rparr>
                                  w2 of
                             (Inl e, w3) \<Rightarrow> (Inl e, w3)
                           | (Inr res, w3) \<Rightarrow>
                               let (blocked_calls, approved_calls, lg3, w4) =
                                     enforceToolBoundaries config m (toolCalls res)
                                       ([], [], [l1, l2], w3);
                                   (passed, lg4, w5) =
                                     (case lookup (outputSchemas env) (outputSchema config) of
                                        Absent \<Rightarrow> (True, lg3, w4)
                                      | found \<Rightarrow>
                                          let vres = validateAgainstFound (data res) found;
                                              (l, w') =
                                                createLog discussion m (agent_name config)
                                                  validation
                                                  (if valid vres
                                                   then check_mark @ '' Output matches JSON schema''
                                                   else cross_mark @ '' Schema validation failed: ''
                                                        @ join ''; '' (errors vres))
                                                  (Some (ValidationData vres)) w4
                                          in (valid vres, lg3 @ [l], w'));
                                   (l6, w6) =
                                     createLog discussion m (agent_name config) plan
                                       (''Discussion complete. '' @ showNat (length approved_calls)
                                        @ '' approved, '' @ showNat (length blocked_calls)
                                        @ '' blocked.'')
                                       None w5
                               in (Inr \<lparr>phase = discussion, result = res, logs = lg4 @ [l6],
                                         validationPassed = passed, blockedCalls = blocked_calls,
                                         approvedCalls = approved_calls\<rparr>,
                                   w6))
                      | _ \<Rightarrow>
                          (Inl (TypeError ''provider.generateStructuredOutput is not a function''),
                           w2))))"

text \<open>The loop over \<^verbatim>\<open>discussionResult.approvedCalls\<close> of the Execution phase.\<close>

fun executeApproved ::
  "AgentConfig \<Rightarrow> ModelId \<Rightarrow> addr list \<Rightarrow> LogEntry list \<times> World \<Rightarrow> LogEntry list \<times> World" where
  "executeApproved config m [] acc = acc"
| "executeApproved config m (call # calls) (lg, w) =
     (let c1 = (heap w call)\<lparr>status := executed\<rparr>;
          c2 = c1\<lparr>call_result :=
                     Some (JObj [(''success'', JBool True),
                                 (''message'', JStr (''Executed '' @ toolName c1
                                                     @ '' successfully''))])\<rparr>;
          w1 = w\<lparr>heap := (heap w)(call := c2)\<rparr>;
          (l, w2) = createLog execution m (agent_name config) exec_entry
                      (''Executed: '' @ toolName c2) (Some (CallData call)) w1
      in executeApproved config m calls (lg @ [l], w2))"

definition runExecution ::
  "Modules \<Rightarrow> AgentRunResult \<Rightarrow> AgentRunRequest \<Rightarrow> World \<Rightarrow> (Error + AgentRunResult) \<times> World" where
  "runExecution env discussionResult request w =
     (case find (\<lambda>c. agent_name c = agent request) (agentConfigs env) of
        None \<Rightarrow> (Inl (Error (''Unknown agent: '' @ agent request)), w)
      | Some config \<Rightarrow>
          let m = effectiveModel request config;
              (l1, w1) = createLog execution m (agent_name config) exec_entry
                           (''User confirmed '' @ emdash @ '' entering execution phase'') None w;
              (passed, lg2, w2) =
                (case lookup (outputSchemas env) (outputSchema config) of
                   Absent \<Rightarrow> (True, [l1], w1)
                 | found \<Rightarrow>
                     let vres =
                           validateAgainstFound (data (result discussionResult)) found;
                         (l, w') =
                           createLog execution m (agent_name config) validation
                             (if valid vres
                              then check_mark @ '' Re-validation passed''
                              else cross_mark @ '' Re-validation failed: ''
                                   @ join ''; '' (errors vres))
                             (Some (ValidationData vres)) w1
                     in (valid vres, [l1, l], w'))
          in if \<not> passed then
               let (l3, w3) = createLog execution m (agent_name config) error_entry
                                ''Execution aborted: output failed re-validation'' None w2
               in (Inr (discussionResult\<lparr>phase := execution, logs := lg2 @ [l3],
                                          validationPassed := False\<rparr>),
                   w3)
             else
               let (lg4, w4) = executeApproved config m (approvedCalls discussionResult) (lg2, w2);
                   (l5, w5) = createLog execution m (agent_name config) exec_entry
                                (''Execution complete. ''
                                 @ showNat (length (approvedCalls discussionResult))
                                 @ '' tool calls executed.'')
                                None w4
               in (Inr \<lparr>phase = execution,
                         result = result discussionResult,
                         logs = logs discussionResult @ (lg4 @ [l5]),
                         validationPassed = passed,
                         blockedCalls = blockedCalls discussionResult,
                         approvedCalls = approvedCalls discussionResult\<rparr>,
                   w5))"

section \<open>Notions of the specification\<close>

text \<open>
  The reasons for which a call is blocked, and the message that \<open>validateToolAccess\<close>
  returns for each of them.
\<close>

datatype BlockReason = NotAllowlisted | NotInRegistry | MissingPermissions "Permission list"

fun blockMessage :: "string \<Rightarrow> BlockReason \<Rightarrow> string" where
  "blockMessage tn NotAllowlisted =
     ''BLOCKED: Tool '' @ dquote @ tn @ dquote @ '' is not in the agent'' @ apostrophe
     @ ''s allowed tools list. This call has been rejected.''"
| "blockMessage tn NotInRegistry =
     ''BLOCKED: Tool '' @ dquote @ tn @ dquote @ '' does not exist in the registry.''"
| "blockMessage tn (MissingPermissions missing) =
     ''BLOCKED: Agent lacks permissions: ['' @ join '', '' missing
     @ '']. This call has been rejected.''"

text \<open>
  The status machine of a tool call: pending to approved or rejected, approved to
  executed, and nothing else.
\<close>

fun legal_transition :: "Status \<Rightarrow> Status \<Rightarrow> bool" where
  "legal_transition pending approved = True"
| "legal_transition pending rejected = True"
| "legal_transition approved executed = True"
| "legal_transition _ _ = False"

text \<open>
  A value satisfies a schema exactly: the schema is in the supported subset (every node
  that is checked has one of the five types), the value has the declared type, all
  required fields are present, every declared field that is present satisfies its own
  schema, there is no undeclared property where additionalProperties is false, every
  element of an array satisfies the item schema, and a string with an enum is a member
  of it. A field of a value is one of its own properties: this is the notion of the
  specification, which knows nothing of the prototype.
\<close>

fun conforms :: "json \<Rightarrow> JSONSchema \<Rightarrow> bool" where
  "conforms v (JSONSchema ty props its req en desc addl) =
    (if ty = ''object'' then
       (case v of
          JObj obj \<Rightarrow>
            (case req of None \<Rightarrow> True | Some ks \<Rightarrow> list_all (\<lambda>k. k \<in> fst ` set obj) ks)
            \<and> (case props of
                 None \<Rightarrow> True
               | Some ps \<Rightarrow>
                   list_all (\<lambda>(k, propSchema).
                               (case map_of obj k of
                                  Some x \<Rightarrow> conforms x propSchema
                                | None \<Rightarrow> True)) ps)
            \<and> (if addl = Some False
               then list_all (\<lambda>k. case props of
                                     None \<Rightarrow> False
                                   | Some ps \<Rightarrow> k \<in> fst ` set ps) (map fst obj)
               else True)
        | _ \<Rightarrow> False)
     else if ty = ''array'' then
       (case v of
          JArr xs \<Rightarrow> (case its of None \<Rightarrow> True | Some it \<Rightarrow> list_all (\<lambda>x. conforms x it) xs)
        | _ \<Rightarrow> False)
     else if ty = ''string'' then
       (case v of
          JStr str \<Rightarrow> (case en of None \<Rightarrow> True | Some e \<Rightarrow> str \<in> set e)
        | _ \<Rightarrow> False)
     else if ty = ''number'' then (case v of JNum n \<Rightarrow> True | _ \<Rightarrow> False)
     else if ty = ''boolean'' then (case v of JBool b \<Rightarrow> True | _ \<Rightarrow> False)
     else False)"

text \<open>
  A schema avoids the prototype when no property it declares, at any depth, has the name
  of a member of \<^verbatim>\<open>Object.prototype\<close>. The schemas of \<open>TOOL_REGISTRY\<close> and
  \<open>OUTPUT_SCHEMAS\<close> do.
\<close>

fun avoidsPrototype :: "JSONSchema \<Rightarrow> bool" where
  "avoidsPrototype (JSONSchema ty props its req en desc addl) =
     ((case props of
         None \<Rightarrow> True
       | Some ps \<Rightarrow>
           list_all (\<lambda>(k, propSchema). k \<notin> set objectPrototypeKeys \<and> avoidsPrototype propSchema)
                    ps)
      \<and> (case its of None \<Rightarrow> True | Some it \<Rightarrow> avoidsPrototype it))"

text \<open>
  Notions used to state what the two phases do to the store: whether the permission
  validator blocks a tool name for an agent, the call after its classification in the
  Discussion phase, the call after its execution, and the options object that
  \<open>runDiscussion\<close> hands to the provider.
\<close>

definition isBlocked :: "AgentConfig \<Rightarrow> string \<Rightarrow> bool" where
  "isBlocked config tn =
     (truthy (validateToolAccess tn (allowedTools config) (permissions config)) \<noteq> None)"

definition classified :: "AgentConfig \<Rightarrow> ToolCall \<Rightarrow> ToolCall" where
  "classified config c =
     c\<lparr>status := (if isBlocked config (toolName c) then rejected else approved)\<rparr>"

definition executedCall :: "ToolCall \<Rightarrow> ToolCall" where
  "executedCall c =
     c\<lparr>status := executed,
       call_result := Some (JObj [(''success'', JBool True),
                                  (''message'', JStr (''Executed '' @ toolName c
                                                      @ '' successfully''))])\<rparr>"

definition providerOptions :: "Modules \<Rightarrow> AgentConfig \<Rightarrow> AgentRunRequest \<Rightarrow> GenerateOptions" where
  "providerOptions env config request =
     \<lparr>systemPrompt = instructions config,
      userPrompt = input request,
      tools = getPermittedTools (allowedTools config) (permissions config),
      opt_outputSchema =
        (case lookup (outputSchemas env) (outputSchema config) of
           Absent \<Rightarrow> Own (JSONSchema ''object'' None None None None None None)
         | found \<Rightarrow> found)\<rparr>"

section \<open>Sample runs\<close>

text \<open>
  Concrete inputs on which the theorems below are instantiated: a provider answer with
  one permitted and one invented tool call for the task agent, a Discussion result with
  two approved calls whose data misses \<^verbatim>\<open>taskId\<close>, and a configuration with an agent
  whose output schema name is in no entry of the schema table.
\<close>

definition sample_heap :: "addr \<Rightarrow> ToolCall" where
  "sample_heap a =
     \<lparr>toolName = (if a = 0 then ''updateTask'' else ''deleteDatabase''),
      arguments = JObj [], call_result = None, status = pending\<rparr>"

definition sample_result :: StructuredResult where
  "sample_result =
     \<lparr>success = True,
      data = JObj [(''taskId'', JStr ''task-001''),
                   (''updates'', JObj [(''status'', JStr ''in-progress'')])],
      toolCalls = [0, 1], reasoning = None, rawOutput = None\<rparr>"

definition sample_gen ::
  "ModelId \<Rightarrow> GenerateOptions \<Rightarrow> World \<Rightarrow> (Error + StructuredResult) \<times> World" where
  "sample_gen m opts w = (Inr sample_result, w\<lparr>heap := sample_heap\<rparr>)"

definition blank_world :: World where
  "blank_world =
     \<lparr>logIdCounter = 0,
      heap = (\<lambda>a. \<lparr>toolName = [], arguments = JNull, call_result = None, status = pending\<rparr>)\<rparr>"

definition task_request :: AgentRunRequest where
  "task_request =
     \<lparr>agent = ''task-agent'', model = None, input = ''Update task-001, then delete the database''\<rparr>"

definition scenario_D :: AgentRunResult where
  "scenario_D =
     \<lparr>phase = discussion,
      result = \<lparr>success = True, data = JObj [(''updates'', JObj [])], toolCalls = [0, 1],
                reasoning = None, rawOutput = None\<rparr>,
      logs = [], validationPassed = False, blockedCalls = [], approvedCalls = [0, 1]\<rparr>"

definition approved_world :: World where
  "approved_world =
     \<lparr>logIdCounter = 7,
      heap = (\<lambda>a. \<lparr>toolName = ''readTask'', arguments = JObj [(''taskId'', JStr ''task-001'')],
                    call_result = None, status = approved\<rparr>)\<rparr>"

definition task_agent :: AgentConfig where
  "task_agent = AGENT_CONFIGS ! 1"








section \<open>The permission validator\<close>

lemma registry_names: "map name TOOL_REGISTRY = [''readTask'', ''updateTask'', ''createWorkflow'', ''listTasks'']"
  by (simp add: TOOL_REGISTRY_def)

lemma registry_distinct: "distinct (map name TOOL_REGISTRY)"
  by (simp add: registry_names)

lemma find_by_name:
  "distinct (map name ts) \<Longrightarrow> tool \<in> set ts \<Longrightarrow> find (\<lambda>t. name t = name tool) ts = Some tool"
  by (induction ts) (auto simp: rev_image_eqI)

lemma find_registry_Some:
  "tool \<in> set TOOL_REGISTRY \<Longrightarrow> find (\<lambda>t. name t = name tool) TOOL_REGISTRY = Some tool"
  by (rule find_by_name [OF registry_distinct])

lemma find_registry_None:
  "tn \<notin> name ` set TOOL_REGISTRY \<Longrightarrow> find (\<lambda>t. name t = tn) TOOL_REGISTRY = None"
  by (auto simp: find_None_iff)

text \<open>
  C3: \<open>validateToolAccess\<close> decides in a fixed order, the first match winning. A tool
  name outside the allow-list gets the not-allowlisted reason; otherwise a name without
  registry entry gets the not-in-registry reason; otherwise, when some required
  permission of the tool is not granted, the missing-permissions reason lists exactly the
  required permissions that are not granted, in their order; otherwise the result is
  \<open>None\<close>, the call is permitted.
\<close>

theorem validateToolAccess_decision_order:
  "(tn \<notin> set allowed \<longrightarrow>
      validateToolAccess tn allowed granted = Some (blockMessage tn NotAllowlisted))
   \<and> (tn \<in> set allowed \<and> tn \<notin> name ` set TOOL_REGISTRY \<longrightarrow>
      validateToolAccess tn allowed granted = Some (blockMessage tn NotInRegistry))
   \<and> (\<forall>tool. tn \<in> set allowed \<and> tool \<in> set TOOL_REGISTRY \<and> name tool = tn \<longrightarrow>
        validateToolAccess tn allowed granted =
          (if \<exists>p \<in> set (requiredPermissions tool). p \<notin> set granted
           then Some (blockMessage tn
                        (MissingPermissions [p \<leftarrow> requiredPermissions tool. p \<notin> set granted]))
           else None))"
proof (intro conjI impI allI)
  assume "tn \<notin> set allowed"
  then show "validateToolAccess tn allowed granted = Some (blockMessage tn NotAllowlisted)"
    by (simp add: validateToolAccess_def array_includes_def)
next
  assume "tn \<in> set allowed \<and> tn \<notin> name ` set TOOL_REGISTRY"
  then show "validateToolAccess tn allowed granted = Some (blockMessage tn NotInRegistry)"
    by (simp add: validateToolAccess_def array_includes_def find_registry_None)
next
  fix tool
  assume h: "tn \<in> set allowed \<and> tool \<in> set TOOL_REGISTRY \<and> name tool = tn"
  then have f: "find (\<lambda>t. name t = tn) TOOL_REGISTRY = Some tool"
    using find_registry_Some by blast
  show "validateToolAccess tn allowed granted =
          (if \<exists>p \<in> set (requiredPermissions tool). p \<notin> set granted
           then Some (blockMessage tn
                        (MissingPermissions [p \<leftarrow> requiredPermissions tool. p \<notin> set granted]))
           else None)"
    using h by (simp add: validateToolAccess_def array_includes_def f filter_empty_conv)
qed

theorem validateToolAccess_decision_order_witness:
  "validateToolAccess ''updateTask'' [''readTask'', ''listTasks''] [''read:tasks'']
     = Some (blockMessage ''updateTask'' NotAllowlisted)
   \<and> validateToolAccess ''dropDatabase'' [''readTask'', ''dropDatabase''] [''read:tasks'']
     = Some (blockMessage ''dropDatabase'' NotInRegistry)
   \<and> validateToolAccess ''updateTask'' [''readTask'', ''updateTask''] [''read:tasks'']
     = Some ''BLOCKED: Agent lacks permissions: [write:tasks]. This call has been rejected.''
   \<and> validateToolAccess ''updateTask'' [''readTask'', ''updateTask''] [''read:tasks'', ''write:tasks'']
     = None"
proof -
  have reg: "TOOL_REGISTRY ! 1 \<in> set TOOL_REGISTRY"
            "name (TOOL_REGISTRY ! 1) = ''updateTask''"
            "requiredPermissions (TOOL_REGISTRY ! 1) = [''write:tasks'']"
    by (simp_all add: TOOL_REGISTRY_def)
  have names: "name ` set TOOL_REGISTRY = {''readTask'', ''updateTask'', ''createWorkflow'', ''listTasks''}"
    using registry_names by (metis list.set_map list.simps(15) empty_set)
  show ?thesis
    using validateToolAccess_decision_order
            [of "''updateTask''" "[''readTask'', ''listTasks'']" "[''read:tasks'']"]
          validateToolAccess_decision_order
            [of "''dropDatabase''" "[''readTask'', ''dropDatabase'']" "[''read:tasks'']"]
          validateToolAccess_decision_order
            [of "''updateTask''" "[''readTask'', ''updateTask'']" "[''read:tasks'']"]
          validateToolAccess_decision_order
            [of "''updateTask''" "[''readTask'', ''updateTask'']" "[''read:tasks'', ''write:tasks'']"]
          reg
    by (simp add: names)
qed

text \<open>
  The outcome for a tool without registry entry is not independent of the allow-list:
  \<^verbatim>\<open>dropDatabase\<close> is in no registry entry, and for an agent whose allow-list does not
  name it the allow-list check answers first.
\<close>

theorem validateToolAccess_unregistered_counterexample:
  "''dropDatabase'' \<notin> name ` set TOOL_REGISTRY
   \<and> validateToolAccess ''dropDatabase'' [''readTask''] [''read:tasks'']
       = Some (blockMessage ''dropDatabase'' NotAllowlisted)
   \<and> validateToolAccess ''dropDatabase'' [''readTask''] [''read:tasks'']
       \<noteq> Some (blockMessage ''dropDatabase'' NotInRegistry)
   \<and> validateToolAccess ''dropDatabase'' [''readTask''] [''read:tasks'']
       \<noteq> validateToolAccess ''dropDatabase'' [''dropDatabase''] [''read:tasks'']"
  by (simp add: validateToolAccess_def array_includes_def TOOL_REGISTRY_def dquote_def apostrophe_def)

text \<open>
  C4, as the code has it: a tool name without registry entry is never permitted. The
  reason is not-in-registry when the name is in the allow-list and not-allowlisted when
  it is not, and in both cases the outcome does not depend on the granted permissions.
\<close>

theorem validateToolAccess_unregistered:
  "tn \<notin> name ` set TOOL_REGISTRY \<Longrightarrow>
     validateToolAccess tn allowed granted =
       Some (blockMessage tn (if tn \<in> set allowed then NotInRegistry else NotAllowlisted))
     \<and> validateToolAccess tn allowed granted = validateToolAccess tn allowed granted'"
  by (simp add: validateToolAccess_def array_includes_def find_registry_None)

theorem validateToolAccess_unregistered_witness:
  "''dropDatabase'' \<notin> name ` set TOOL_REGISTRY
   \<and> validateToolAccess ''dropDatabase'' [''dropDatabase''] [''read:tasks'']
       = Some (blockMessage ''dropDatabase'' NotInRegistry)
   \<and> validateToolAccess ''dropDatabase'' [''dropDatabase''] [''read:tasks'']
       = validateToolAccess ''dropDatabase'' [''dropDatabase''] []"
proof -
  have h: "''dropDatabase'' \<notin> name ` set TOOL_REGISTRY"
    by (simp add: TOOL_REGISTRY_def)
  note t = validateToolAccess_unregistered
             [OF h, of "[''dropDatabase'']" "[''read:tasks'']" "[]"]
  have a: "validateToolAccess ''dropDatabase'' [''dropDatabase''] [''read:tasks'']
             = Some (blockMessage ''dropDatabase'' NotInRegistry)"
    using t by simp
  have b: "validateToolAccess ''dropDatabase'' [''dropDatabase''] [''read:tasks'']
             = validateToolAccess ''dropDatabase'' [''dropDatabase''] []"
    using t by (rule conjunct2)
  show ?thesis
    using h a b by blast
qed

text \<open>
  C5: \<open>getPermittedTools\<close> returns exactly the registry entries whose name is in the
  allow-list and whose required permissions are all granted (both containments), and
  it returns them in registry order: the result is a subsequence of the registry, namely
  the registry filtered by that condition.
\<close>

theorem getPermittedTools_exact:
  "set (getPermittedTools allowed granted)
     = {t \<in> set TOOL_REGISTRY. name t \<in> set allowed \<and> set (requiredPermissions t) \<subseteq> set granted}
   \<and> subseq (getPermittedTools allowed granted) TOOL_REGISTRY
   \<and> getPermittedTools allowed granted
     = filter (\<lambda>t. name t \<in> set allowed \<and> set (requiredPermissions t) \<subseteq> set granted) TOOL_REGISTRY"
proof -
  have eq: "getPermittedTools allowed granted
     = filter (\<lambda>t. name t \<in> set allowed \<and> set (requiredPermissions t) \<subseteq> set granted) TOOL_REGISTRY"
    by (simp add: getPermittedTools_def array_includes_def list_all_iff subset_eq)
  show ?thesis
    unfolding eq by auto
qed

section \<open>The schema validator\<close>

lemma concat_map_Nil: "(\<And>x. x \<in> set xs \<Longrightarrow> f x = []) \<Longrightarrow> concat (map f xs) = []"
  by (induction xs) auto

lemma getProperty_None_iff: "getProperty (JObj obj) key = None \<longleftrightarrow> \<not> key_in key obj"
proof (cases "map_of obj key")
  case None
  then have "key \<notin> set (map fst obj)"
    by (simp add: map_of_eq_None_iff)
  with None show ?thesis
    by (simp add: key_in_def objectPrototypeKeys_def)
next
  case (Some x)
  then have "key \<in> set (map fst obj)"
    by (metis map_of_eq_None_iff option.distinct(1) list.set_map)
  with Some show ?thesis
    by (simp add: key_in_def)
qed

lemma getProperty_own:
  "key \<notin> set objectPrototypeKeys \<Longrightarrow> getProperty (JObj obj) key = map_of obj key"
  by (cases "map_of obj key") (simp_all add: objectPrototypeKeys_def)

lemma validate_object_unfold:
  "validate (JObj obj) (JSONSchema ''object'' props its req en desc addl) path =
     (case req of None \<Rightarrow> [] | Some keys \<Rightarrow>
         concat (map (\<lambda>key. if getProperty (JObj obj) key = None
                             then [path @ ''.'' @ key @ '': required field missing'']
                             else []) keys))
     @ (case props of None \<Rightarrow> [] | Some ps \<Rightarrow>
         concat (map (\<lambda>(key, propSchema).
                        (case getProperty (JObj obj) key of
                           Some x \<Rightarrow> validate x propSchema (path @ ''.'' @ key)
                         | None \<Rightarrow> [])) ps))
     @ (if addl = Some False then
         (case props of
            None \<Rightarrow> []
          | Some ps \<Rightarrow>
              concat (map (\<lambda>key. if \<not> key_in key ps
                                  then [path @ ''.'' @ key @ '': unexpected property'']
                                  else []) (map fst obj)))
       else [])"
  by (subst validate.simps) simp

lemma validate_array_unfold:
  "validate (JArr xs) (JSONSchema ''array'' props its req en desc addl) path =
     (case its of
        None \<Rightarrow> []
      | Some it \<Rightarrow>
          concat (map (\<lambda>(i, item). validate item it (path @ ''['' @ showNat i @ '']''))
                      (enumerate 0 xs)))"
  by (subst validate.simps) simp

lemma required_scan_Nil:
  assumes "\<And>ks k. req = Some ks \<Longrightarrow> k \<in> set ks \<Longrightarrow> getProperty v k \<noteq> None"
  shows "(case req of None \<Rightarrow> [] | Some keys \<Rightarrow>
              concat (map (\<lambda>key. if getProperty v key = None
                                  then [path @ ''.'' @ key @ '': required field missing'']
                                  else []) keys)) = []"
proof (cases req)
  case None
  then show ?thesis by simp
next
  case (Some ks)
  have "concat (map (\<lambda>key. if getProperty v key = None
                            then [path @ ''.'' @ key @ '': required field missing'']
                            else []) ks) = []"
  proof (rule concat_map_Nil)
    fix k assume "k \<in> set ks"
    then have "getProperty v k \<noteq> None"
      using assms [OF Some] by blast
    then show "(if getProperty v k = None
                then [path @ ''.'' @ k @ '': required field missing''] else []) = []"
      by (simp del: getProperty.simps)
  qed
  with Some show ?thesis by (simp del: getProperty.simps)
qed

lemma properties_scan_Nil:
  assumes "\<And>ps k sch x. props = Some ps \<Longrightarrow> (k, sch) \<in> set ps \<Longrightarrow> getProperty v k = Some x
                \<Longrightarrow> validate x sch (path @ ''.'' @ k) = []"
  shows "(case props of None \<Rightarrow> [] | Some ps \<Rightarrow>
              concat (map (\<lambda>(key, propSchema).
                             (case getProperty v key of
                                Some x \<Rightarrow> validate x propSchema (path @ ''.'' @ key)
                              | None \<Rightarrow> [])) ps)) = []"
proof (cases props)
  case None
  then show ?thesis by simp
next
  case (Some ps)
  have "concat (map (\<lambda>(key, propSchema).
                           (case getProperty v key of
                              Some x \<Rightarrow> validate x propSchema (path @ ''.'' @ key)
                            | None \<Rightarrow> [])) ps) = []"
  proof (rule concat_map_Nil)
    fix e
    assume m: "e \<in> set ps"
    obtain k sch where e: "e = (k, sch)" by (cases e)
    show "(case e of (key, propSchema) \<Rightarrow>
             (case getProperty v key of
                Some x \<Rightarrow> validate x propSchema (path @ ''.'' @ key)
              | None \<Rightarrow> [])) = []"
    proof (cases "getProperty v k")
      case None
      then show ?thesis by (simp add: e del: getProperty.simps)
    next
      case found: (Some x)
      have "validate x sch (path @ ''.'' @ k) = []"
        using assms Some m e found by blast
      with found show ?thesis
        by (simp add: e del: getProperty.simps)
    qed
  qed
  with Some show ?thesis by (simp del: getProperty.simps)
qed

lemma extra_scan_Nil:
  assumes "\<And>ps k. addl = Some False \<Longrightarrow> props = Some ps \<Longrightarrow> k \<in> fst ` set obj
                \<Longrightarrow> key_in k ps"
  shows "(if addl = Some False then
              (case props of
                 None \<Rightarrow> []
               | Some ps \<Rightarrow>
                   concat (map (\<lambda>key. if \<not> key_in key ps
                                       then [path @ ''.'' @ key @ '': unexpected property'']
                                       else []) (map fst obj)))
            else []) = []"
proof (cases "addl = Some False")
  case False
  then show ?thesis by simp
next
  case closed: True
  show ?thesis
  proof (cases props)
    case None
    then show ?thesis using closed by simp
  next
    case (Some ps)
    have "concat (map (\<lambda>key. if \<not> key_in key ps
                              then [path @ ''.'' @ key @ '': unexpected property'']
                              else []) (map fst obj)) = []"
    proof (rule concat_map_Nil)
      fix k assume "k \<in> set (map fst obj)"
      then have "key_in k ps"
        using assms [OF closed Some] by simp
      then show "(if \<not> key_in k ps then [path @ ''.'' @ k @ '': unexpected property''] else []) = []"
        by simp
    qed
    with closed Some show ?thesis by simp
  qed
qed

lemma validate_object_Nil:
  assumes r: "\<And>ks k. req = Some ks \<Longrightarrow> k \<in> set ks \<Longrightarrow> getProperty (JObj obj) k \<noteq> None"
      and p: "\<And>ps k sch x. props = Some ps \<Longrightarrow> (k, sch) \<in> set ps
                \<Longrightarrow> getProperty (JObj obj) k = Some x
                \<Longrightarrow> validate x sch (path @ ''.'' @ k) = []"
      and a: "\<And>ps k. addl = Some False \<Longrightarrow> props = Some ps \<Longrightarrow> k \<in> fst ` set obj
                \<Longrightarrow> key_in k ps"
  shows "validate (JObj obj) (JSONSchema ''object'' props its req en desc addl) path = []"
  by (simp only: validate_object_unfold
                 required_scan_Nil [of req "JObj obj" path, OF r]
                 properties_scan_Nil [of props "JObj obj" path, OF p]
                 extra_scan_Nil [of addl props obj path, OF a]
                 append_Nil)

lemma validate_array_Nil:
  assumes "\<And>it i x. its = Some it \<Longrightarrow> (i, x) \<in> set (enumerate 0 xs)
             \<Longrightarrow> validate x it (path @ ''['' @ showNat i @ '']'') = []"
  shows "validate (JArr xs) (JSONSchema ''array'' props its req en desc addl) path = []"
proof (cases its)
  case None
  then show ?thesis by (simp only: validate_array_unfold option.case)
next
  case (Some it)
  have "concat (map (\<lambda>(i, item). validate item it (path @ ''['' @ showNat i @ '']''))
                    (enumerate 0 xs)) = []"
  proof (rule concat_map_Nil)
    fix e
    assume m: "e \<in> set (enumerate 0 xs)"
    obtain i x where e: "e = (i, x)" by (cases e)
    have "validate x it (path @ ''['' @ showNat i @ '']'') = []"
      using assms Some m e by blast
    then show "(case e of (i, item) \<Rightarrow> validate item it (path @ ''['' @ showNat i @ '']'')) = []"
      by (simp only: e prod.case)
  qed
  with Some show ?thesis by (simp only: validate_array_unfold option.case)
qed

lemma conforms_object_unfold:
  "conforms (JObj obj) (JSONSchema ''object'' props its req en desc addl) =
     ((case req of None \<Rightarrow> True | Some ks \<Rightarrow> list_all (\<lambda>k. k \<in> fst ` set obj) ks)
      \<and> (case props of
           None \<Rightarrow> True
         | Some ps \<Rightarrow>
             list_all (\<lambda>(k, propSchema).
                         (case map_of obj k of
                            Some x \<Rightarrow> conforms x propSchema
                          | None \<Rightarrow> True)) ps)
      \<and> (if addl = Some False
         then list_all (\<lambda>k. case props of
                               None \<Rightarrow> False
                             | Some ps \<Rightarrow> k \<in> fst ` set ps) (map fst obj)
         else True))"
  by (subst conforms.simps) simp

lemma conforms_object_is_object:
  "conforms v (JSONSchema ''object'' props its req en desc addl) \<Longrightarrow> \<exists>obj. v = JObj obj"
  by (cases v) simp_all

lemma conforms_array_is_array:
  "conforms v (JSONSchema ''array'' props its req en desc addl) \<Longrightarrow> \<exists>xs. v = JArr xs"
  by (cases v) simp_all

lemma conforms_array_unfold:
  "conforms (JArr xs) (JSONSchema ''array'' props its req en desc addl) =
     (case its of None \<Rightarrow> True | Some it \<Rightarrow> list_all (\<lambda>x. conforms x it) xs)"
  by (subst conforms.simps) simp

lemma conforms_leaf:
  assumes "conforms v (JSONSchema ty props its req en desc addl)"
      and "ty \<noteq> ''object''" and "ty \<noteq> ''array''"
  shows "validate v (JSONSchema ty props its req en desc addl) path = []"
proof (cases v)
  case (JStr str)
  with assms show ?thesis
    by (cases en) (simp_all add: array_includes_def split: if_splits)
qed (use assms in \<open>simp_all split: if_splits\<close>)

lemma avoidsPrototype_props:
  "avoidsPrototype (JSONSchema ty (Some ps) its req en desc addl) \<Longrightarrow> (k, sch) \<in> set ps
     \<Longrightarrow> k \<notin> set objectPrototypeKeys \<and> avoidsPrototype sch"
  by (auto simp: list_all_iff)

lemma avoidsPrototype_items:
  "avoidsPrototype (JSONSchema ty props (Some it) req en desc addl) \<Longrightarrow> avoidsPrototype it"
  by simp

lemma conforms_validate_Nil:
  "conforms v s \<Longrightarrow> avoidsPrototype s \<Longrightarrow> validate v s path = []"
proof (induction v s path rule: validate.induct)
  case (1 v ty props its req en desc addl path)
  note c = "1.prems"(1) and av = "1.prems"(2)
  show ?case
  proof (cases "ty = ''object''")
    case True
    from c True obtain obj where v: "v = JObj obj"
      using conforms_object_is_object by blast
    have own: "ownProperties v = Some obj"
      by (simp add: v)
    from c have u: "conforms (JObj obj) (JSONSchema ''object'' props its req en desc addl)"
      by (simp only: True v)
    note parts = u [unfolded conforms_object_unfold]
    have "validate (JObj obj) (JSONSchema ''object'' props its req en desc addl) path = []"
    proof (rule validate_object_Nil)
      fix ks k
      assume "req = Some ks" "k \<in> set ks"
      with parts have "k \<in> set (map fst obj)"
        by (simp add: list_all_iff)
      then show "getProperty (JObj obj) k \<noteq> None"
        by (simp add: getProperty_None_iff key_in_def del: getProperty.simps)
    next
      fix ps k sch x
      assume ps: "props = Some ps" and m: "(k, sch) \<in> set ps"
        and l: "getProperty (JObj obj) k = Some x"
      from avoidsPrototype_props [OF av [unfolded ps] m]
      have nk: "k \<notin> set objectPrototypeKeys" and asch: "avoidsPrototype sch"
        by blast+
      from l nk have l': "map_of obj k = Some x"
        by (simp add: getProperty_own del: getProperty.simps)
      from parts ps have "list_all (\<lambda>(k, propSchema).
                         (case map_of obj k of
                            Some x \<Rightarrow> conforms x propSchema
                          | None \<Rightarrow> True)) ps"
        by simp
      with m have "case map_of obj k of Some x \<Rightarrow> conforms x sch | None \<Rightarrow> True"
        unfolding list_all_iff by blast
      with l' have cx: "conforms x sch" by simp
      from l have lv: "getProperty v k = Some x"
        by (simp only: v)
      from "1.IH"(1) [OF True own ps m refl lv cx asch]
      show "validate x sch (path @ ''.'' @ k) = []" .
    next
      fix ps k
      assume "addl = Some False" "props = Some ps" "k \<in> fst ` set obj"
      with parts have "k \<in> fst ` set ps"
        by (auto simp: list_all_iff)
      then show "key_in k ps"
        by (simp add: key_in_def)
    qed
    then show ?thesis
      by (simp only: True v)
  next
    case notobj: False
    show ?thesis
    proof (cases "ty = ''array''")
      case True
      from c True obtain xs where v: "v = JArr xs"
        using conforms_array_is_array by blast
      from c have u: "conforms (JArr xs) (JSONSchema ''array'' props its req en desc addl)"
        by (simp only: True v)
      note parts = u [unfolded conforms_array_unfold]
      have "validate (JArr xs) (JSONSchema ''array'' props its req en desc addl) path = []"
      proof (rule validate_array_Nil)
        fix it i x
        assume it: "its = Some it" and m: "(i, x) \<in> set (enumerate 0 xs)"
        from m have "x \<in> set xs"
          by (auto simp: in_set_enumerate_eq)
        with parts it have cx: "conforms x it"
          by (simp add: list_all_iff)
        from avoidsPrototype_items [OF av [unfolded it]] have ai: "avoidsPrototype it" .
        from "1.IH"(2) [OF notobj True v it m refl cx ai]
        show "validate x it (path @ ''['' @ showNat i @ '']'') = []" .
      qed
      then show ?thesis
        by (simp only: True v)
    next
      case False
      with c notobj show ?thesis
        by (rule conforms_leaf)
    qed
  qed
qed

text \<open>
  For a schema that avoids the prototype the round trip holds: a value that satisfies
  it exactly is validated without error.
\<close>

lemma validateAgainstSchema_roundtrip_avoiding_prototype:
  "conforms v s \<Longrightarrow> avoidsPrototype s \<Longrightarrow> validateAgainstSchema v s = \<lparr>valid = True, errors = []\<rparr>"
  by (simp add: validateAgainstSchema_def conforms_validate_Nil)

text \<open>
  C7: the round trip fails for a declared property that bears the name of a member of
  \<^verbatim>\<open>Object.prototype\<close>. The empty object satisfies the schema below exactly, its only
  declared property being optional and absent; but \<^verbatim>\<open>key in obj\<close> finds the inherited
  function, \<open>validate\<close> checks it against the property schema, and the result is
  \<open>valid = False\<close> with a type error for a field that the value does not have.
\<close>

theorem validateAgainstSchema_roundtrip_fails_on_inherited:
  "conforms (JObj [])
     (JSONSchema ''object''
        (Some [(''toString'', JSONSchema ''string'' None None None None None None)])
        None None None None None)
   \<and> validateAgainstSchema (JObj [])
       (JSONSchema ''object''
          (Some [(''toString'', JSONSchema ''string'' None None None None None None)])
          None None None None None)
     = \<lparr>valid = False, errors = [''$.toString: expected string, got function'']\<rparr>"
  by (simp add: validateAgainstSchema_def objectPrototypeKeys_def)

lemma validate_unknown_type:
  "ty \<notin> {''object'', ''array'', ''string'', ''number'', ''boolean''} \<Longrightarrow>
     validate v (JSONSchema ty props its req en desc addl) path = []"
  by simp

text \<open>
  C6: a schema node whose type is none of object, array, string, number and boolean
  falls through every branch of \<open>validate\<close>, which then pushes no error, whatever the
  value is. Here the type is \<^verbatim>\<open>integer\<close> and the value is free-form text, and the result
  is \<open>valid = True\<close>.
\<close>

theorem validateAgainstSchema_unknown_type_accepts:
  "validateAgainstSchema (JStr ''DROP TABLE users'')
     (JSONSchema ''integer'' None None None None None None)
   = \<lparr>valid = True, errors = []\<rparr>"
  by (simp add: validateAgainstSchema_def)

lemma required_ne_unexpected:
  "path @ ''.'' @ k' @ '': required field missing'' \<noteq> path @ ''.'' @ k @ '': unexpected property''"
proof
  assume "path @ ''.'' @ k' @ '': required field missing'' = path @ ''.'' @ k @ '': unexpected property''"
  then have "last (path @ ''.'' @ k' @ '': required field missing'')
              = last (path @ ''.'' @ k @ '': unexpected property'')"
    by (rule arg_cong)
  then show False by simp
qed

text \<open>
  C10: for an object schema with additionalProperties false and no properties map, the
  errors of an object value are the required names that \<^verbatim>\<open>key in obj\<close> does not find, and
  nothing else: no key of the value is reported as an unexpected property.
\<close>

theorem validate_additionalProperties_without_properties:
  assumes "schema_type s = ''object''"
      and "properties s = None"
      and "additionalProperties s = Some False"
  shows "validate (JObj obj) s path =
           concat (map (\<lambda>k. if \<not> key_in k obj
                            then [path @ ''.'' @ k @ '': required field missing'']
                            else [])
                       (case required s of None \<Rightarrow> [] | Some ks \<Rightarrow> ks))
         \<and> (\<forall>k. path @ ''.'' @ k @ '': unexpected property'' \<notin> set (validate (JObj obj) s path))"
proof -
  obtain ty props its req en desc addl where s: "s = JSONSchema ty props its req en desc addl"
    by (cases s)
  from assms s have f: "ty = ''object''" "props = None" "addl = Some False"
    by simp_all
  have e: "validate (JObj obj) s path =
           concat (map (\<lambda>k. if \<not> key_in k obj
                            then [path @ ''.'' @ k @ '': required field missing'']
                            else [])
                       (case required s of None \<Rightarrow> [] | Some ks \<Rightarrow> ks))"
    unfolding s f validate_object_unfold
    by (cases req) (simp_all add: getProperty_None_iff del: getProperty.simps)
  show ?thesis
    unfolding e by (auto simp: required_ne_unexpected split: if_splits)
qed

theorem validate_additionalProperties_without_properties_witness:
  "schema_type (JSONSchema ''object'' None None (Some [''taskId'']) None None (Some False)) = ''object''
   \<and> properties (JSONSchema ''object'' None None (Some [''taskId'']) None None (Some False)) = None
   \<and> additionalProperties (JSONSchema ''object'' None None (Some [''taskId'']) None None (Some False))
       = Some False
   \<and> validate (JObj [(''taskId'', JStr ''task-001''), (''executeSQL'', JStr ''DROP TABLE users'')])
               (JSONSchema ''object'' None None (Some [''taskId'']) None None (Some False)) ''$'' = []
   \<and> validate (JObj [])
               (JSONSchema ''object'' None None (Some [''taskId'', ''toString'']) None None
                  (Some False)) ''$''
       = [''$.taskId: required field missing'']"
  using validate_additionalProperties_without_properties
          [of "JSONSchema ''object'' None None (Some [''taskId'']) None None (Some False)"
              "[(''taskId'', JStr ''task-001''), (''executeSQL'', JStr ''DROP TABLE users'')]" "''$''"]
        validate_additionalProperties_without_properties
          [of "JSONSchema ''object'' None None (Some [''taskId'', ''toString'']) None None
                 (Some False)" "[]" "''$''"]
  by (simp add: key_in_def objectPrototypeKeys_def)

section \<open>The two phases\<close>

lemma createLog_world [simp]:
  "snd (createLog ph m ag ty msg d w) = w\<lparr>logIdCounter := logIdCounter w + 1\<rparr>"
  by (simp add: createLog_def Let_def)

lemma createLog_type [simp]:
  "log_type (fst (createLog ph m ag ty msg d w)) = ty"
  by (simp add: createLog_def Let_def)

lemma createLog_data [simp]:
  "log_data (fst (createLog ph m ag ty msg d w)) = d"
  by (simp add: createLog_def Let_def)


lemma enforce_step:
  "enforceToolBoundaries config m (call # calls) (bl, ap, lg, w) =
     (if isBlocked config (toolName (heap w call))
      then enforceToolBoundaries config m calls
             (bl @ [call], ap,
              lg @ [fst (createLog discussion m (agent_name config) blocked
                           (the (truthy (validateToolAccess (toolName (heap w call))
                                           (allowedTools config) (permissions config))))
                           (Some (CallData call))
                           (w\<lparr>heap := (heap w)(call := classified config (heap w call))\<rparr>))],
              w\<lparr>heap := (heap w)(call := classified config (heap w call)),
                 logIdCounter := logIdCounter w + 1\<rparr>)
      else enforceToolBoundaries config m calls
             (bl, ap @ [call],
              lg @ [fst (createLog discussion m (agent_name config) tool_call
                           (''Tool call approved: '' @ toolName (heap w call))
                           (Some (CallData call))
                           (w\<lparr>heap := (heap w)(call := classified config (heap w call))\<rparr>))],
              w\<lparr>heap := (heap w)(call := classified config (heap w call)),
                 logIdCounter := logIdCounter w + 1\<rparr>))"
  by (auto simp: isBlocked_def classified_def createLog_def Let_def split: option.splits)

lemma classified_toolName [simp]: "toolName (classified config c) = toolName c"
  by (simp add: classified_def)

lemma classified_idem [simp]: "classified config (classified config c) = classified config c"
  by (simp add: classified_def)

lemma enforce_closed_form:
  "\<exists>new. enforceToolBoundaries config m calls (bl, ap, lg, w) =
     (bl @ filter (\<lambda>a. isBlocked config (toolName (heap w a))) calls,
      ap @ filter (\<lambda>a. \<not> isBlocked config (toolName (heap w a))) calls,
      lg @ new,
      w\<lparr>heap := (\<lambda>a. if a \<in> set calls then classified config (heap w a) else heap w a),
         logIdCounter := logIdCounter w + length calls\<rparr>)
     \<and> (\<forall>l \<in> set new. log_type l = blocked \<or> log_type l = tool_call)"
proof (induction calls arbitrary: bl ap lg w)
  case Nil
  show ?case by simp
next
  case (Cons call calls)
  let ?w1 = "w\<lparr>heap := (heap w)(call := classified config (heap w call)),
               logIdCounter := logIdCounter w + 1\<rparr>"
  have tn: "\<And>a. toolName (heap ?w1 a) = toolName (heap w a)"
    by simp
  have hp: "(\<lambda>a. if a \<in> set calls then classified config (heap ?w1 a) else heap ?w1 a)
            = (\<lambda>a. if a \<in> set (call # calls) then classified config (heap w a) else heap w a)"
    by (rule ext) simp
  show ?case
  proof (cases "isBlocked config (toolName (heap w call))")
    case True
    from Cons.IH [of "bl @ [call]" ap _ ?w1] obtain new where
      "enforceToolBoundaries config m calls
         (bl @ [call], ap,
          lg @ [fst (createLog discussion m (agent_name config) blocked
                           (the (truthy (validateToolAccess (toolName (heap w call))
                                           (allowedTools config) (permissions config))))
                           (Some (CallData call))
                           (w\<lparr>heap := (heap w)(call := classified config (heap w call))\<rparr>))],
          ?w1) =
       ((bl @ [call]) @ filter (\<lambda>a. isBlocked config (toolName (heap ?w1 a))) calls,
        ap @ filter (\<lambda>a. \<not> isBlocked config (toolName (heap ?w1 a))) calls,
        (lg @ [fst (createLog discussion m (agent_name config) blocked
                           (the (truthy (validateToolAccess (toolName (heap w call))
                                           (allowedTools config) (permissions config))))
                           (Some (CallData call))
                           (w\<lparr>heap := (heap w)(call := classified config (heap w call))\<rparr>))]) @ new,
        ?w1\<lparr>heap := (\<lambda>a. if a \<in> set calls then classified config (heap ?w1 a) else heap ?w1 a),
            logIdCounter := logIdCounter ?w1 + length calls\<rparr>)"
      and "\<forall>l \<in> set new. log_type l = blocked \<or> log_type l = tool_call"
      by blast
    then show ?thesis
      unfolding enforce_step hp tn using True
      by (intro exI [where x = "fst (createLog discussion m (agent_name config) blocked
                           (the (truthy (validateToolAccess (toolName (heap w call))
                                           (allowedTools config) (permissions config))))
                           (Some (CallData call))
                           (w\<lparr>heap := (heap w)(call := classified config (heap w call))\<rparr>)) # new"])
         simp
  next
    case False
    from Cons.IH [of bl "ap @ [call]" _ ?w1] obtain new where
      "enforceToolBoundaries config m calls
         (bl, ap @ [call],
          lg @ [fst (createLog discussion m (agent_name config) tool_call
                           (''Tool call approved: '' @ toolName (heap w call))
                           (Some (CallData call))
                           (w\<lparr>heap := (heap w)(call := classified config (heap w call))\<rparr>))],
          ?w1) =
       (bl @ filter (\<lambda>a. isBlocked config (toolName (heap ?w1 a))) calls,
        (ap @ [call]) @ filter (\<lambda>a. \<not> isBlocked config (toolName (heap ?w1 a))) calls,
        (lg @ [fst (createLog discussion m (agent_name config) tool_call
                           (''Tool call approved: '' @ toolName (heap w call))
                           (Some (CallData call))
                           (w\<lparr>heap := (heap w)(call := classified config (heap w call))\<rparr>))]) @ new,
        ?w1\<lparr>heap := (\<lambda>a. if a \<in> set calls then classified config (heap ?w1 a) else heap ?w1 a),
            logIdCounter := logIdCounter ?w1 + length calls\<rparr>)"
      and "\<forall>l \<in> set new. log_type l = blocked \<or> log_type l = tool_call"
      by blast
    then show ?thesis
      unfolding enforce_step hp tn using False
      by (intro exI [where x = "fst (createLog discussion m (agent_name config) tool_call
                           (''Tool call approved: '' @ toolName (heap w call))
                           (Some (CallData call))
                           (w\<lparr>heap := (heap w)(call := classified config (heap w call))\<rparr>)) # new"])
         simp
  qed
qed

lemma executedCall_toolName [simp]: "toolName (executedCall c) = toolName c"
  by (simp add: executedCall_def)

lemma executedCall_idem [simp]: "executedCall (executedCall c) = executedCall c"
  by (simp add: executedCall_def)

lemma executedCall_status [simp]: "status (executedCall c) = executed"
  by (simp add: executedCall_def)

lemma classified_status:
  "status (classified config c) = (if isBlocked config (toolName c) then rejected else approved)"
  by (simp add: classified_def)

lemma execute_step:
  "executeApproved config m (call # calls) (lg, w) =
     executeApproved config m calls
       (lg @ [fst (createLog execution m (agent_name config) exec_entry
                     (''Executed: '' @ toolName (heap w call)) (Some (CallData call))
                     (w\<lparr>heap := (heap w)(call := executedCall (heap w call))\<rparr>))],
        w\<lparr>heap := (heap w)(call := executedCall (heap w call)),
           logIdCounter := logIdCounter w + 1\<rparr>)"
  by (simp add: executedCall_def createLog_def Let_def)

lemma execute_closed_form:
  "\<exists>new. executeApproved config m calls (lg, w) =
     (lg @ new,
      w\<lparr>heap := (\<lambda>a. if a \<in> set calls then executedCall (heap w a) else heap w a),
         logIdCounter := logIdCounter w + length calls\<rparr>)
     \<and> (\<forall>l \<in> set new. log_type l = exec_entry) \<and> length new = length calls"
proof (induction calls arbitrary: lg w)
  case Nil
  show ?case by simp
next
  case (Cons call calls)
  let ?w1 = "w\<lparr>heap := (heap w)(call := executedCall (heap w call)),
               logIdCounter := logIdCounter w + 1\<rparr>"
  let ?l = "fst (createLog execution m (agent_name config) exec_entry
                     (''Executed: '' @ toolName (heap w call)) (Some (CallData call))
                     (w\<lparr>heap := (heap w)(call := executedCall (heap w call))\<rparr>))"
  have hp: "(\<lambda>a. if a \<in> set calls then executedCall (heap ?w1 a) else heap ?w1 a)
            = (\<lambda>a. if a \<in> set (call # calls) then executedCall (heap w a) else heap w a)"
    by (rule ext) simp
  from Cons.IH [of "lg @ [?l]" ?w1] obtain new where
    "executeApproved config m calls (lg @ [?l], ?w1) =
       ((lg @ [?l]) @ new,
        ?w1\<lparr>heap := (\<lambda>a. if a \<in> set calls then executedCall (heap ?w1 a) else heap ?w1 a),
            logIdCounter := logIdCounter ?w1 + length calls\<rparr>)"
    and "\<forall>l \<in> set new. log_type l = exec_entry" and "length new = length calls"
    by blast
  then show ?case
    unfolding execute_step hp
    by (intro exI [where x = "?l # new"]) simp
qed

lemma lookup_Own: "map_of entries key = Some x \<Longrightarrow> lookup entries key = Own x"
  by (simp add: lookup_def)


lemma lookup_Inherited:
  "map_of entries key = None \<Longrightarrow> key \<in> set objectPrototypeKeys
     \<Longrightarrow> lookup entries key = Inherited key"
  by (simp add: lookup_def)

lemma runDiscussion_unknown_agent:
  "find (\<lambda>c. agent_name c = agent request) (agentConfigs env) = None \<Longrightarrow>
     runDiscussion env request w = (Inl (Error (''Unknown agent: '' @ agent request)), w)"
  by (simp add: runDiscussion_def)

lemma runDiscussion_unknown_model:
  "find (\<lambda>c. agent_name c = agent request) (agentConfigs env) = Some config \<Longrightarrow>
   lookup (providers env) (effectiveModel request config) = Absent \<Longrightarrow>
     runDiscussion env request w =
       (Inl (Error (''Unknown model: '' @ effectiveModel request config @ ''. Supported: ''
                    @ join '', '' (map fst (providers env)))), w)"
  by (simp add: runDiscussion_def getProvider_def Let_def)

lemma runDiscussion_inherited_model:
  "find (\<lambda>c. agent_name c = agent request) (agentConfigs env) = Some config \<Longrightarrow>
   lookup (providers env) (effectiveModel request config) = Inherited k \<Longrightarrow>
     runDiscussion env request w =
       (Inl (TypeError ''provider.generateStructuredOutput is not a function''),
        w\<lparr>logIdCounter := logIdCounter w + 2\<rparr>)"
  by (simp add: runDiscussion_def getProvider_def Let_def case_prod_beta)

lemma runDiscussion_known:
  assumes "find (\<lambda>c. agent_name c = agent request) (agentConfigs env) = Some config"
      and "getProvider (providers env) (effectiveModel request config) = Inr (Own provider)"
  shows "runDiscussion env request w =
     (case generateStructuredOutput provider (providerOptions env config request)
             (w\<lparr>logIdCounter := logIdCounter w + 2\<rparr>) of
        (Inl e, w3) \<Rightarrow> (Inl e, w3)
      | (Inr res, w3) \<Rightarrow>
          (let m = effectiveModel request config;
               l1 = fst (createLog discussion m (agent_name config) plan
                           (''Starting discussion phase with '' @ displayName provider) None w);
               l2 = fst (createLog discussion m (agent_name config) plan
                           (''Permitted tools: [''
                            @ join '', '' (map name (getPermittedTools (allowedTools config)
                                                        (permissions config)))
                            @ '']'')
                           None (w\<lparr>logIdCounter := logIdCounter w + 1\<rparr>));
               (blocked_calls, approved_calls, lg3, w4) =
                 enforceToolBoundaries config m (toolCalls res) ([], [], [l1, l2], w3);
               (passed, lg4, w5) =
                 (case lookup (outputSchemas env) (outputSchema config) of
                    Absent \<Rightarrow> (True, lg3, w4)
                  | found \<Rightarrow>
                      let vres = validateAgainstFound (data res) found;
                          (l, w') =
                            createLog discussion m (agent_name config) validation
                              (if valid vres
                               then check_mark @ '' Output matches JSON schema''
                               else cross_mark @ '' Schema validation failed: ''
                                    @ join ''; '' (errors vres))
                              (Some (ValidationData vres)) w4
                      in (valid vres, lg3 @ [l], w'));
               (l6, w6) =
                 createLog discussion m (agent_name config) plan
                   (''Discussion complete. '' @ showNat (length approved_calls)
                    @ '' approved, '' @ showNat (length blocked_calls) @ '' blocked.'')
                   None w5
           in (Inr \<lparr>phase = discussion, result = res, logs = lg4 @ [l6],
                     validationPassed = passed, blockedCalls = blocked_calls,
                     approvedCalls = approved_calls\<rparr>,
               w6)))"
  using assms
  by (simp add: runDiscussion_def providerOptions_def createLog_def Let_def
           split: prod.splits sum.splits)

lemma runDiscussion_success:
  assumes cfg: "find (\<lambda>c. agent_name c = agent request) (agentConfigs env) = Some config"
      and prov: "getProvider (providers env) (effectiveModel request config) = Inr (Own provider)"
      and gen: "generateStructuredOutput provider (providerOptions env config request)
                  (w\<lparr>logIdCounter := logIdCounter w + 2\<rparr>) = (Inr res, w3)"
  shows "\<exists>dr w1. runDiscussion env request w = (Inr dr, w1)
           \<and> result dr = res \<and> phase dr = discussion
           \<and> blockedCalls dr = filter (\<lambda>a. isBlocked config (toolName (heap w3 a))) (toolCalls res)
           \<and> approvedCalls dr
               = filter (\<lambda>a. \<not> isBlocked config (toolName (heap w3 a))) (toolCalls res)
           \<and> heap w1 = (\<lambda>a. if a \<in> set (toolCalls res) then classified config (heap w3 a)
                              else heap w3 a)
           \<and> validationPassed dr
               = (case lookup (outputSchemas env) (outputSchema config) of
                    Absent \<Rightarrow> True
                  | found \<Rightarrow> valid (validateAgainstFound (data res) found))
           \<and> (lookup (outputSchemas env) (outputSchema config) = Absent
                \<longrightarrow> (\<forall>l \<in> set (logs dr). log_type l \<noteq> validation))
           \<and> (lookup (outputSchemas env) (outputSchema config) \<noteq> Absent
                \<longrightarrow> (\<exists>l \<in> set (logs dr). log_type l = validation))"
proof -
  let ?m = "effectiveModel request config"
  let ?l1 = "fst (createLog discussion ?m (agent_name config) plan
                    (''Starting discussion phase with '' @ displayName provider) None w)"
  let ?l2 = "fst (createLog discussion ?m (agent_name config) plan
                    (''Permitted tools: [''
                     @ join '', '' (map name (getPermittedTools (allowedTools config)
                                                 (permissions config)))
                     @ '']'')
                    None (w\<lparr>logIdCounter := logIdCounter w + 1\<rparr>))"
  obtain new where
    loop: "enforceToolBoundaries config ?m (toolCalls res) ([], [], [?l1, ?l2], w3) =
       ([] @ filter (\<lambda>a. isBlocked config (toolName (heap w3 a))) (toolCalls res),
        [] @ filter (\<lambda>a. \<not> isBlocked config (toolName (heap w3 a))) (toolCalls res),
        [?l1, ?l2] @ new,
        w3\<lparr>heap := (\<lambda>a. if a \<in> set (toolCalls res) then classified config (heap w3 a)
                         else heap w3 a),
           logIdCounter := logIdCounter w3 + length (toolCalls res)\<rparr>)"
    and types: "\<forall>l \<in> set new. log_type l = blocked \<or> log_type l = tool_call"
    using enforce_closed_form [of config ?m "toolCalls res" "[]" "[]" "[?l1, ?l2]" w3] by blast
  have lt: "log_type ?l1 = plan" "log_type ?l2 = plan"
    by simp_all
  show ?thesis
  proof (cases "lookup (outputSchemas env) (outputSchema config)")
    case Absent
    show ?thesis
      unfolding runDiscussion_known [OF cfg prov] gen
      using types lt loop
      by (auto simp: Let_def Absent case_prod_beta)
  next
    case (Own schema)
    show ?thesis
      unfolding runDiscussion_known [OF cfg prov] gen
      using loop
      by (simp add: Let_def Own case_prod_beta)
  next
    case (Inherited k)
    show ?thesis
      unfolding runDiscussion_known [OF cfg prov] gen
      using loop
      by (simp add: Let_def Inherited case_prod_beta)
  qed
qed

lemma runDiscussion_inversion:
  assumes "runDiscussion env request w = (Inr dr, w1)"
  shows "\<exists>config provider res w3.
           find (\<lambda>c. agent_name c = agent request) (agentConfigs env) = Some config
           \<and> getProvider (providers env) (effectiveModel request config) = Inr (Own provider)
           \<and> generateStructuredOutput provider (providerOptions env config request)
                  (w\<lparr>logIdCounter := logIdCounter w + 2\<rparr>) = (Inr res, w3)"
proof (cases "find (\<lambda>c. agent_name c = agent request) (agentConfigs env)")
  case None
  with assms show ?thesis
    by (simp add: runDiscussion_unknown_agent)
next
  case (Some config)
  show ?thesis
  proof (cases "lookup (providers env) (effectiveModel request config)")
    case Absent
    with assms Some show ?thesis
      by (simp add: runDiscussion_unknown_model)
  next
    case (Inherited k)
    with assms Some show ?thesis
      by (simp add: runDiscussion_inherited_model)
  next
    case (Own provider)
    then have p: "getProvider (providers env) (effectiveModel request config) = Inr (Own provider)"
      by (simp add: getProvider_def)
    obtain r w3 where g: "generateStructuredOutput provider (providerOptions env config request)
                  (w\<lparr>logIdCounter := logIdCounter w + 2\<rparr>) = (r, w3)"
      by (cases "generateStructuredOutput provider (providerOptions env config request)
                  (w\<lparr>logIdCounter := logIdCounter w + 2\<rparr>)")
    show ?thesis
    proof (cases r)
      case (Inl e)
      with assms show ?thesis
        unfolding runDiscussion_known [OF Some p] g by simp
    next
      case r: (Inr res)
      with Some p g show ?thesis by blast
    qed
  qed
qed

lemma runExecution_unknown_agent:
  "find (\<lambda>c. agent_name c = agent request) (agentConfigs env) = None \<Longrightarrow>
     runExecution env dr request w = (Inl (Error (''Unknown agent: '' @ agent request)), w)"
  by (simp add: runExecution_def)

lemma runExecution_abort:
  assumes cfg: "find (\<lambda>c. agent_name c = agent request) (agentConfigs env) = Some config"
      and sch: "lookup (outputSchemas env) (outputSchema config) = Own schema"
      and inv: "\<not> valid (validateAgainstSchema (data (result dr)) schema)"
  shows "\<exists>l1 l2 l3.
           runExecution env dr request w =
             (Inr (dr\<lparr>phase := execution, logs := [l1, l2, l3], validationPassed := False\<rparr>),
              w\<lparr>logIdCounter := logIdCounter w + 3\<rparr>)
           \<and> log_type l1 = exec_entry \<and> log_type l2 = validation \<and> log_type l3 = error_entry
           \<and> log_data l1 = None
           \<and> log_data l2 = Some (ValidationData (validateAgainstSchema (data (result dr)) schema))
           \<and> log_data l3 = None"
proof -
  let ?m = "effectiveModel request config"
  let ?v = "validateAgainstSchema (data (result dr)) schema"
  let ?l1 = "fst (createLog execution ?m (agent_name config) exec_entry
                    (''User confirmed '' @ emdash @ '' entering execution phase'') None w)"
  let ?l2 = "fst (createLog execution ?m (agent_name config) validation
                    (if valid ?v
                     then check_mark @ '' Re-validation passed''
                     else cross_mark @ '' Re-validation failed: '' @ join ''; '' (errors ?v))
                    (Some (ValidationData ?v)) (w\<lparr>logIdCounter := logIdCounter w + 1\<rparr>))"
  let ?l3 = "fst (createLog execution ?m (agent_name config) error_entry
                    ''Execution aborted: output failed re-validation'' None
                    (w\<lparr>logIdCounter := logIdCounter w + 2\<rparr>))"
  have "runExecution env dr request w =
          (Inr (dr\<lparr>phase := execution, logs := [?l1, ?l2, ?l3], validationPassed := False\<rparr>),
           w\<lparr>logIdCounter := logIdCounter w + 3\<rparr>)"
    using inv by (simp add: runExecution_def cfg sch Let_def case_prod_beta)
  moreover have "log_type ?l1 = exec_entry" "log_type ?l2 = validation" "log_type ?l3 = error_entry"
    "log_data ?l1 = None" "log_data ?l2 = Some (ValidationData ?v)" "log_data ?l3 = None"
    by simp_all
  ultimately show ?thesis
    by blast
qed

lemma runExecution_pass:
  assumes cfg: "find (\<lambda>c. agent_name c = agent request) (agentConfigs env) = Some config"
      and ok: "case lookup (outputSchemas env) (outputSchema config) of
                 Absent \<Rightarrow> True
               | found \<Rightarrow> valid (validateAgainstFound (data (result dr)) found)"
  shows "\<exists>out w' lg.
           runExecution env dr request w = (Inr out, w')
           \<and> validationPassed out \<and> phase out = execution \<and> result out = result dr
           \<and> approvedCalls out = approvedCalls dr \<and> blockedCalls out = blockedCalls dr
           \<and> logs out = logs dr @ lg
           \<and> (lookup (outputSchemas env) (outputSchema config) = Absent
                \<longrightarrow> (\<forall>l \<in> set lg. log_type l \<noteq> validation))
           \<and> (lookup (outputSchemas env) (outputSchema config) \<noteq> Absent
                \<longrightarrow> (\<exists>l \<in> set lg. log_type l = validation))
           \<and> heap w' = (\<lambda>a. if a \<in> set (approvedCalls dr) then executedCall (heap w a)
                              else heap w a)"
proof -
  let ?m = "effectiveModel request config"
  let ?l1 = "fst (createLog execution ?m (agent_name config) exec_entry
                    (''User confirmed '' @ emdash @ '' entering execution phase'') None w)"
  have lt: "log_type ?l1 = exec_entry"
    by simp
  show ?thesis
  proof (cases "lookup (outputSchemas env) (outputSchema config) = Absent")
    case True
    obtain new where
      loop: "executeApproved config ?m (approvedCalls dr)
               ([?l1], w\<lparr>logIdCounter := logIdCounter w + 1\<rparr>) =
             ([?l1] @ new,
              w\<lparr>logIdCounter := logIdCounter w + 1\<rparr>
               \<lparr>heap := (\<lambda>a. if a \<in> set (approvedCalls dr)
                              then executedCall (heap (w\<lparr>logIdCounter := logIdCounter w + 1\<rparr>) a)
                              else heap (w\<lparr>logIdCounter := logIdCounter w + 1\<rparr>) a),
                 logIdCounter := logIdCounter (w\<lparr>logIdCounter := logIdCounter w + 1\<rparr>)
                                 + length (approvedCalls dr)\<rparr>)"
      and types: "\<forall>l \<in> set new. log_type l = exec_entry"
      using execute_closed_form
              [of config ?m "approvedCalls dr" "[?l1]" "w\<lparr>logIdCounter := logIdCounter w + 1\<rparr>"]
      by blast
    show ?thesis
      using types lt loop
      by (auto simp: runExecution_def cfg True Let_def case_prod_beta)
  next
    case False
    let ?found = "lookup (outputSchemas env) (outputSchema config)"
    let ?v = "validateAgainstFound (data (result dr)) ?found"
    let ?l2 = "fst (createLog execution ?m (agent_name config) validation
                      (if valid ?v
                       then check_mark @ '' Re-validation passed''
                       else cross_mark @ '' Re-validation failed: '' @ join ''; '' (errors ?v))
                      (Some (ValidationData ?v)) (w\<lparr>logIdCounter := logIdCounter w + 1\<rparr>))"
    from ok False have v: "valid ?v"
      by (cases ?found) simp_all
    obtain new where
      loop: "executeApproved config ?m (approvedCalls dr)
               ([?l1, ?l2], w\<lparr>logIdCounter := logIdCounter w + 2\<rparr>) =
             ([?l1, ?l2] @ new,
              w\<lparr>logIdCounter := logIdCounter w + 2\<rparr>
               \<lparr>heap := (\<lambda>a. if a \<in> set (approvedCalls dr)
                              then executedCall (heap (w\<lparr>logIdCounter := logIdCounter w + 2\<rparr>) a)
                              else heap (w\<lparr>logIdCounter := logIdCounter w + 2\<rparr>) a),
                 logIdCounter := logIdCounter (w\<lparr>logIdCounter := logIdCounter w + 2\<rparr>)
                                 + length (approvedCalls dr)\<rparr>)"
      using execute_closed_form
              [of config ?m "approvedCalls dr" "[?l1, ?l2]" "w\<lparr>logIdCounter := logIdCounter w + 2\<rparr>"]
      by blast
    show ?thesis
      using v loop False
      by (cases ?found) (auto simp: runExecution_def cfg Let_def case_prod_beta)
  qed
qed

lemma runExecution_heap:
  assumes "runExecution env dr request w = (out, w')"
  shows "heap w' = heap w
         \<or> heap w' = (\<lambda>a. if a \<in> set (approvedCalls dr) then executedCall (heap w a) else heap w a)"
proof (cases "find (\<lambda>c. agent_name c = agent request) (agentConfigs env)")
  case None
  with assms show ?thesis
    by (simp add: runExecution_unknown_agent)
next
  case (Some config)
  show ?thesis
  proof (cases "case lookup (outputSchemas env) (outputSchema config) of
                 Absent \<Rightarrow> True
               | found \<Rightarrow> valid (validateAgainstFound (data (result dr)) found)")
    case True
    from runExecution_pass [OF Some True, of w] assms show ?thesis
      by auto
  next
    case False
    then obtain schema where
      "lookup (outputSchemas env) (outputSchema config) = Own schema"
      "\<not> valid (validateAgainstSchema (data (result dr)) schema)"
      by (cases "lookup (outputSchemas env) (outputSchema config)") simp_all
    from runExecution_abort [OF Some this, of w] assms show ?thesis
      by auto
  qed
qed

lemma map_of_OUTPUT_SCHEMAS_TaskUpdate:
  "map_of OUTPUT_SCHEMAS ''TaskUpdate'' =
     Some (JSONSchema ''object''
        (Some [(''taskId'', JSONSchema ''string'' None None None None None None),
               (''updates'',
                JSONSchema ''object''
                  (Some [(''status'', JSONSchema ''string'' None None None
                                        (Some [''open'', ''in-progress'', ''urgent'', ''done''])
                                        None None),
                         (''priority'', JSONSchema ''string'' None None None
                                          (Some [''low'', ''medium'', ''high'', ''critical''])
                                          None None)])
                  None None None None None)])
        None (Some [''taskId'', ''updates'']) None None (Some False))"
  by (simp add: OUTPUT_SCHEMAS_def)

text \<open>
  C1: when the re-validation of the Execution phase fails, \<open>runExecution\<close> returns with
  \<open>validationPassed = False\<close> and executes nothing: the store is unchanged, so every
  approved call keeps its status and its result, and no log entry refers to a call. The
  log of the phase has three entries, the confirmation, the failed validation and exactly
  one entry of type error.
\<close>

theorem runExecution_revalidation_failure:
  assumes cfg: "find (\<lambda>c. agent_name c = agent request) (agentConfigs env) = Some config"
      and sch: "map_of (outputSchemas env) (outputSchema config) = Some schema"
      and inv: "\<not> valid (validateAgainstSchema (data (result dr)) schema)"
  shows "\<exists>out w'. runExecution env dr request w = (Inr out, w')
           \<and> validationPassed out = False
           \<and> heap w' = heap w
           \<and> (\<forall>a \<in> set (approvedCalls dr).
                 status (heap w' a) = status (heap w a)
                 \<and> call_result (heap w' a) = call_result (heap w a))
           \<and> approvedCalls out = approvedCalls dr
           \<and> map log_type (logs out) = [exec_entry, validation, error_entry]
           \<and> length (filter (\<lambda>l. log_type l = error_entry) (logs out)) = 1
           \<and> (\<forall>l \<in> set (logs out). \<forall>a. log_data l \<noteq> Some (CallData a))"
proof -
  from runExecution_abort [OF cfg lookup_Own [OF sch] inv, of w] obtain l1 l2 l3 where
    run: "runExecution env dr request w =
             (Inr (dr\<lparr>phase := execution, logs := [l1, l2, l3], validationPassed := False\<rparr>),
              w\<lparr>logIdCounter := logIdCounter w + 3\<rparr>)"
    and ty: "log_type l1 = exec_entry" "log_type l2 = validation" "log_type l3 = error_entry"
    and da: "log_data l1 = None"
            "log_data l2 = Some (ValidationData (validateAgainstSchema (data (result dr)) schema))"
            "log_data l3 = None"
    by blast
  show ?thesis
    unfolding run using ty da by simp
qed

lemma find_task_agent:
  "find (\<lambda>c. agent_name c = ''task-agent'') AGENT_CONFIGS = Some task_agent"
  by (simp add: AGENT_CONFIGS_def task_agent_def)

lemma task_agent_fields:
  "agent_name task_agent = ''task-agent''"
  "agent_model task_agent = ''gpt-5.2''"
  "outputSchema task_agent = ''TaskUpdate''"
  "allowedTools task_agent = [''readTask'', ''updateTask'', ''listTasks'']"
  "permissions task_agent = [''read:tasks'', ''write:tasks'']"
  by (simp_all add: AGENT_CONFIGS_def task_agent_def)

theorem runExecution_revalidation_failure_witness:
  "\<exists>out w'. runExecution (shipped sample_gen) scenario_D task_request approved_world = (Inr out, w')
      \<and> validationPassed out = False
      \<and> status (heap w' 0) = approved \<and> status (heap w' 1) = approved
      \<and> call_result (heap w' 0) = None \<and> call_result (heap w' 1) = None
      \<and> length (filter (\<lambda>l. log_type l = error_entry) (logs out)) = 1"
proof -
  have cfg: "find (\<lambda>c. agent_name c = agent task_request) (agentConfigs (shipped sample_gen))
               = Some task_agent"
    by (simp add: task_request_def shipped_def find_task_agent)
  have sch: "map_of (outputSchemas (shipped sample_gen)) (outputSchema task_agent)
               = Some (the (map_of OUTPUT_SCHEMAS ''TaskUpdate''))"
    by (simp add: shipped_def task_agent_fields map_of_OUTPUT_SCHEMAS_TaskUpdate)
  have inv: "\<not> valid (validateAgainstSchema (data (result scenario_D))
                        (the (map_of OUTPUT_SCHEMAS ''TaskUpdate'')))"
    by (simp add: scenario_D_def map_of_OUTPUT_SCHEMAS_TaskUpdate validateAgainstSchema_def
                  objectPrototypeKeys_def)
  from runExecution_revalidation_failure [OF cfg sch inv, of approved_world]
  obtain out w' where
    "runExecution (shipped sample_gen) scenario_D task_request approved_world = (Inr out, w')"
    "validationPassed out = False" "heap w' = heap approved_world"
    "length (filter (\<lambda>l. log_type l = error_entry) (logs out)) = 1"
    by blast
  then show ?thesis
    by (simp add: approved_world_def)
qed


lemma enforce_outcome:
  assumes "enforceToolBoundaries config m calls ([], [], lg, w) = (bl, ap, lg', w')"
  shows "bl = filter (\<lambda>a. isBlocked config (toolName (heap w a))) calls"
    and "ap = filter (\<lambda>a. \<not> isBlocked config (toolName (heap w a))) calls"
    and "heap w' = (\<lambda>a. if a \<in> set calls then classified config (heap w a) else heap w a)"
  using enforce_closed_form [of config m calls "[]" "[]" lg w] assms
  by auto

text \<open>
  C2: the status of a call follows the machine pending to approved or rejected, approved
  to executed. The classification loop of the Discussion phase takes every proposed
  call, pending when proposed, by a legal transition to exactly one of approved and
  rejected, the approved ones being those of \<open>approvedCalls\<close>, and touches no other
  call. In a run, the Execution phase that follows changes the status of a call only
  from approved to executed and only for calls of \<open>approvedCalls\<close>; a rejected call
  stays rejected.
\<close>

theorem toolcall_status_machine:
  "((\<forall>a \<in> set calls. status (heap w a) = pending)
     \<and> enforceToolBoundaries config m calls ([], [], lg, w) = (bl, ap, lg', w')
     \<longrightarrow> (\<forall>a \<in> set calls.
            legal_transition (status (heap w a)) (status (heap w' a))
            \<and> (status (heap w' a) = approved \<longleftrightarrow> a \<in> set ap)
            \<and> (status (heap w' a) = rejected \<longleftrightarrow> a \<in> set bl))
         \<and> set ap \<inter> set bl = {} \<and> set ap \<union> set bl = set calls
         \<and> (\<forall>a. a \<notin> set calls \<longrightarrow> heap w' a = heap w a))
   \<and> (runDiscussion env request w0 = (Inr dr, w1) \<and> runExecution env dr request w1 = (out, w2)
     \<longrightarrow> set (approvedCalls dr) \<union> set (blockedCalls dr) = set (toolCalls (result dr))
         \<and> (\<forall>a \<in> set (approvedCalls dr). status (heap w1 a) = approved)
         \<and> (\<forall>a \<in> set (blockedCalls dr). status (heap w1 a) = rejected)
         \<and> (\<forall>a. status (heap w2 a) \<noteq> status (heap w1 a) \<longrightarrow>
                a \<in> set (approvedCalls dr) \<and> status (heap w1 a) = approved
                \<and> status (heap w2 a) = executed
                \<and> legal_transition (status (heap w1 a)) (status (heap w2 a)))
         \<and> (\<forall>a. status (heap w1 a) = rejected \<longrightarrow> status (heap w2 a) = rejected))"
proof -
  have partA: "(\<forall>a \<in> set calls.
            legal_transition (status (heap w a)) (status (heap w' a))
            \<and> (status (heap w' a) = approved \<longleftrightarrow> a \<in> set ap)
            \<and> (status (heap w' a) = rejected \<longleftrightarrow> a \<in> set bl))
         \<and> set ap \<inter> set bl = {} \<and> set ap \<union> set bl = set calls
         \<and> (\<forall>a. a \<notin> set calls \<longrightarrow> heap w' a = heap w a)"
    if pend: "\<forall>a \<in> set calls. status (heap w a) = pending"
    and run: "enforceToolBoundaries config m calls ([], [], lg, w) = (bl, ap, lg', w')"
    using pend unfolding enforce_outcome [OF run] by (auto simp: classified_status)
  have partC: "set (approvedCalls dr) \<union> set (blockedCalls dr) = set (toolCalls (result dr))
         \<and> (\<forall>a \<in> set (approvedCalls dr). status (heap w1 a) = approved)
         \<and> (\<forall>a \<in> set (blockedCalls dr). status (heap w1 a) = rejected)
         \<and> (\<forall>a. status (heap w2 a) \<noteq> status (heap w1 a) \<longrightarrow>
                a \<in> set (approvedCalls dr) \<and> status (heap w1 a) = approved
                \<and> status (heap w2 a) = executed
                \<and> legal_transition (status (heap w1 a)) (status (heap w2 a)))
         \<and> (\<forall>a. status (heap w1 a) = rejected \<longrightarrow> status (heap w2 a) = rejected)"
    if disc: "runDiscussion env request w0 = (Inr dr, w1)"
    and exec: "runExecution env dr request w1 = (out, w2)"
  proof -
    from runDiscussion_inversion [OF disc] obtain config provider res w3 where
      cfg: "find (\<lambda>c. agent_name c = agent request) (agentConfigs env) = Some config"
      and prov: "getProvider (providers env) (effectiveModel request config) = Inr (Own provider)"
      and gen: "generateStructuredOutput provider (providerOptions env config request)
                  (w0\<lparr>logIdCounter := logIdCounter w0 + 2\<rparr>) = (Inr res, w3)"
      by blast
    from runDiscussion_success [OF cfg prov gen] disc have
      res: "result dr = res"
      and bl: "blockedCalls dr
                 = filter (\<lambda>a. isBlocked config (toolName (heap w3 a))) (toolCalls res)"
      and ap: "approvedCalls dr
                 = filter (\<lambda>a. \<not> isBlocked config (toolName (heap w3 a))) (toolCalls res)"
      and h1: "heap w1 = (\<lambda>a. if a \<in> set (toolCalls res) then classified config (heap w3 a)
                                else heap w3 a)"
      by auto
    have A: "\<forall>a \<in> set (approvedCalls dr). status (heap w1 a) = approved"
      unfolding ap h1 by (simp add: classified_status)
    have B: "\<forall>a \<in> set (blockedCalls dr). status (heap w1 a) = rejected"
      unfolding bl h1 by (simp add: classified_status)
    have U: "set (approvedCalls dr) \<union> set (blockedCalls dr) = set (toolCalls (result dr))"
      unfolding ap bl res by auto
    from runExecution_heap [OF exec] have
      h2: "heap w2 = heap w1
           \<or> heap w2 = (\<lambda>a. if a \<in> set (approvedCalls dr) then executedCall (heap w1 a)
                             else heap w1 a)" .
    have C: "a \<in> set (approvedCalls dr) \<and> status (heap w1 a) = approved
                  \<and> status (heap w2 a) = executed
                  \<and> legal_transition (status (heap w1 a)) (status (heap w2 a))"
      if ch: "status (heap w2 a) \<noteq> status (heap w1 a)" for a
    proof -
      from ch h2 have e: "heap w2 = (\<lambda>a. if a \<in> set (approvedCalls dr)
                                          then executedCall (heap w1 a) else heap w1 a)"
        by auto
      with ch have m: "a \<in> set (approvedCalls dr)"
        by (auto split: if_splits)
      with A have "status (heap w1 a) = approved"
        by blast
      moreover from e m have "status (heap w2 a) = executed"
        by simp
      ultimately show ?thesis
        using m by simp
    qed
    have D: "status (heap w2 a) = rejected" if r: "status (heap w1 a) = rejected" for a
    proof (rule ccontr)
      assume "status (heap w2 a) \<noteq> rejected"
      with r have "status (heap w2 a) \<noteq> status (heap w1 a)"
        by simp
      from C [OF this] r show False
        by simp
    qed
    show ?thesis
      using U A B C D by blast
  qed
  show ?thesis
    using partA partC by blast
qed

lemma isBlocked_task_agent:
  "\<not> isBlocked task_agent ''updateTask''"
  "isBlocked task_agent ''deleteDatabase''"
  by (simp_all add: isBlocked_def truthy_def validateToolAccess_def array_includes_def
                    task_agent_fields TOOL_REGISTRY_def)

lemma task_agent_provider:
  "getProvider (providers (shipped sample_gen)) (effectiveModel task_request task_agent)
     = Inr (Own \<lparr>modelId = ''gpt-5.2'', displayName = ''OpenAI GPT-5.2'', vendor = ''openai'',
                 generateStructuredOutput = sample_gen ''gpt-5.2''\<rparr>)"
  by (simp add: getProvider_def lookup_def shipped_def providers_table_def effectiveModel_def
                task_request_def task_agent_fields)

theorem toolcall_status_machine_witness:
  "\<exists>bl ap lg' w' dr w1 out w2.
      status (heap (blank_world\<lparr>heap := sample_heap\<rparr>) 0) = pending
    \<and> status (heap (blank_world\<lparr>heap := sample_heap\<rparr>) 1) = pending
    \<and> enforceToolBoundaries task_agent ''gpt-5.2'' [0, 1]
         ([], [], [], blank_world\<lparr>heap := sample_heap\<rparr>) = (bl, ap, lg', w')
    \<and> ap = [0] \<and> bl = [1]
    \<and> status (heap w' 0) = approved \<and> status (heap w' 1) = rejected
    \<and> runDiscussion (shipped sample_gen) task_request blank_world = (Inr dr, w1)
    \<and> runExecution (shipped sample_gen) dr task_request w1 = (out, w2)
    \<and> approvedCalls dr = [0] \<and> blockedCalls dr = [1]
    \<and> status (heap w1 0) = approved \<and> status (heap w2 0) = executed
    \<and> status (heap w1 1) = rejected \<and> status (heap w2 1) = rejected"
proof -
  let ?w = "blank_world\<lparr>heap := sample_heap\<rparr>"
  have pend: "\<forall>a \<in> set [0, 1]. status (heap ?w a) = pending"
    by (simp add: sample_heap_def)
  obtain bl ap lg' w' where
    run: "enforceToolBoundaries task_agent ''gpt-5.2'' [0, 1] ([], [], [], ?w) = (bl, ap, lg', w')"
    by (metis prod_cases4)
  have names: "toolName (sample_heap 0) = ''updateTask''"
              "toolName (sample_heap (Suc 0)) = ''deleteDatabase''"
    by (simp_all add: sample_heap_def)
  from enforce_outcome(1,2) [OF run] have lists: "ap = [0]" "bl = [1]"
    by (simp_all add: names isBlocked_task_agent)
  have cfg: "find (\<lambda>c. agent_name c = agent task_request) (agentConfigs (shipped sample_gen))
               = Some task_agent"
    by (simp add: task_request_def shipped_def find_task_agent)
  have gen: "generateStructuredOutput
               \<lparr>modelId = ''gpt-5.2'', displayName = ''OpenAI GPT-5.2'', vendor = ''openai'',
                generateStructuredOutput = sample_gen ''gpt-5.2''\<rparr>
               (providerOptions (shipped sample_gen) task_agent task_request)
               (blank_world\<lparr>logIdCounter := logIdCounter blank_world + 2\<rparr>)
             = (Inr sample_result,
                blank_world\<lparr>logIdCounter := logIdCounter blank_world + 2, heap := sample_heap\<rparr>)"
    by (simp add: sample_gen_def)
  from runDiscussion_success [OF cfg task_agent_provider gen] obtain dr w1 where
    disc: "runDiscussion (shipped sample_gen) task_request blank_world = (Inr dr, w1)"
    and res: "result dr = sample_result"
    and dbl: "blockedCalls dr = [1]" and dap: "approvedCalls dr = [0]"
    by (auto simp: sample_result_def sample_heap_def isBlocked_task_agent)
  obtain out w2 where
    exec: "runExecution (shipped sample_gen) dr task_request w1 = (out, w2)"
    by (cases "runExecution (shipped sample_gen) dr task_request w1")
  have ok: "case lookup (outputSchemas (shipped sample_gen)) (outputSchema task_agent) of
              Absent \<Rightarrow> True
            | found \<Rightarrow> valid (validateAgainstFound (data (result dr)) found)"
    by (simp add: shipped_def task_agent_fields lookup_def map_of_OUTPUT_SCHEMAS_TaskUpdate res
                  sample_result_def validateAgainstSchema_def key_in_def objectPrototypeKeys_def
                  array_includes_def)
  from runExecution_pass [OF cfg ok, of w1] exec have
    h2: "heap w2 = (\<lambda>a. if a \<in> set (approvedCalls dr) then executedCall (heap w1 a)
                         else heap w1 a)"
    by auto
  note T = toolcall_status_machine
             [where calls = "[0, 1]" and w = ?w and config = task_agent and m = "''gpt-5.2''"
                and lg = "[]" and bl = bl and ap = ap and lg' = lg' and w' = w'
                and env = "shipped sample_gen" and request = task_request and ?w0.0 = blank_world
                and dr = dr and ?w1.0 = w1 and out = out and ?w2.0 = w2]
  from T pend run have a: "status (heap w' 0) = approved" "status (heap w' 1) = rejected"
    by (simp_all add: lists)
  from T disc exec have c: "status (heap w1 0) = approved" "status (heap w1 1) = rejected"
    "status (heap w2 1) = rejected"
    by (simp_all add: dap dbl)
  have e: "status (heap w2 0) = executed"
    by (simp add: h2 dap)
  from pend have p: "status (heap ?w 0) = pending" "status (heap ?w 1) = pending"
    by simp_all
  show ?thesis
    using p run lists a disc exec dap dbl c e by blast
qed











end
